theory Spec2Isabelle
  imports Complex_Main "HOL-Library.Word"
begin

section \<open>Numbers of the source\<close>

text \<open>
  The source computes times, zoom levels and rates in C++ \<^verbatim>\<open>double\<close>. The model keeps the
  special values of that type (the two infinities and not-a-number), because the code
  divides by values that are zero in reachable states (a default-constructed
  \<^verbatim>\<open>WaveCache\<close> has \<^verbatim>\<open>pps = 0\<close>), and computes exactly on the finite values:
  rounding is not modelled, and zero carries no sign (a nonzero value divided by zero
  is the infinity of the dividend's sign).
\<close>

datatype double = Fin real | PInf | MInf | NaN

fun dneg :: "double \<Rightarrow> double" where
  "dneg (Fin a) = Fin (- a)"
| "dneg PInf = MInf"
| "dneg MInf = PInf"
| "dneg NaN = NaN"

fun dadd :: "double \<Rightarrow> double \<Rightarrow> double" where
  "dadd NaN _ = NaN"
| "dadd _ NaN = NaN"
| "dadd (Fin a) (Fin b) = Fin (a + b)"
| "dadd PInf MInf = NaN"
| "dadd MInf PInf = NaN"
| "dadd PInf _ = PInf"
| "dadd MInf _ = MInf"
| "dadd _ PInf = PInf"
| "dadd _ MInf = MInf"

definition dsub :: "double \<Rightarrow> double \<Rightarrow> double" where
  "dsub x y = dadd x (dneg y)"

fun dabs :: "double \<Rightarrow> double" where
  "dabs (Fin a) = Fin \<bar>a\<bar>"
| "dabs PInf = PInf"
| "dabs MInf = PInf"
| "dabs NaN = NaN"

text \<open>The sign of a value that is not NaN: \<open>True\<close> for negative.\<close>

fun dnegative :: "double \<Rightarrow> bool" where
  "dnegative (Fin a) = (a < 0)"
| "dnegative MInf = True"
| "dnegative _ = False"

definition dinf :: "bool \<Rightarrow> double" where
  "dinf negative = (if negative then MInf else PInf)"

fun dmul :: "double \<Rightarrow> double \<Rightarrow> double" where
  "dmul NaN _ = NaN"
| "dmul _ NaN = NaN"
| "dmul (Fin a) (Fin b) = Fin (a * b)"
| "dmul (Fin a) y = (if a = 0 then NaN else dinf ((a < 0) \<noteq> dnegative y))"
| "dmul x (Fin b) = (if b = 0 then NaN else dinf (dnegative x \<noteq> (b < 0)))"
| "dmul x y = dinf (dnegative x \<noteq> dnegative y)"

fun ddiv :: "double \<Rightarrow> double \<Rightarrow> double" where
  "ddiv NaN _ = NaN"
| "ddiv _ NaN = NaN"
| "ddiv (Fin a) (Fin b) =
     (if b \<noteq> 0 then Fin (a / b) else if a = 0 then NaN else dinf (a < 0))"
| "ddiv (Fin a) _ = Fin 0"
| "ddiv x (Fin b) = dinf (dnegative x \<noteq> (b < 0))"
| "ddiv _ _ = NaN"

fun dless :: "double \<Rightarrow> double \<Rightarrow> bool" where
  "dless NaN _ = False"
| "dless _ NaN = False"
| "dless (Fin a) (Fin b) = (a < b)"
| "dless MInf y = (y \<noteq> MInf)"
| "dless x PInf = (x \<noteq> PInf)"
| "dless _ _ = False"

text \<open>\<^verbatim>\<open>==\<close> on doubles: NaN equals nothing, not even itself.\<close>

definition deq :: "double \<Rightarrow> double \<Rightarrow> bool" where
  "deq x y = (x \<noteq> NaN \<and> x = y)"

text \<open>
  Conversion of a \<^verbatim>\<open>double\<close> to \<^verbatim>\<open>int\<close> truncates towards zero. C++ leaves the
  conversion of an infinity or NaN undefined; the model returns 0 there.
\<close>

fun double_to_int :: "double \<Rightarrow> int" where
  "double_to_int (Fin a) = (if 0 \<le> a then \<lfloor>a\<rfloor> else \<lceil>a\<rceil>)"
| "double_to_int _ = 0"

section \<open>Data of WaveformCache.cpp\<close>

text \<open>
  \<^verbatim>\<open>class WaveCache\<close>. \<^verbatim>\<open>dirty\<close> is a C++ \<^verbatim>\<open>int\<close> (here its 32-bit pattern, so that \<^verbatim>\<open>++\<close> wraps),
  \<^verbatim>\<open>len\<close> a \<^verbatim>\<open>size_t\<close>, \<^verbatim>\<open>where\<close> a vector of \<^verbatim>\<open>sampleCount\<close> (a 64-bit sample
  position, here an unbounded integer), and \<^verbatim>\<open>min\<close>, \<^verbatim>\<open>max\<close>, \<^verbatim>\<open>rms\<close> are vectors of
  \<^verbatim>\<open>float\<close>, here finite reals without rounding.
\<close>

record WaveCache =
  dirty :: "32 word"
  len :: nat
  start :: double
  pps :: double
  rate :: int
  where_c :: "int list"
  min_c :: "real list"
  max_c :: "real list"
  rms_c :: "real list"

text \<open>The default constructor \<^verbatim>\<open>WaveCache()\<close>; \<^verbatim>\<open>len { 0 }\<close> is the member's initialiser.\<close>

definition WaveCache_default :: WaveCache where
  "WaveCache_default =
     \<lparr>dirty = - 1, len = 0, start = Fin (- 1), pps = Fin 0, rate = - 1,
      where_c = [], min_c = [], max_c = [], rms_c = []\<rparr>"

text \<open>
  \<^verbatim>\<open>WaveCache(len_, pixelsPerSecond, rate_, t0, dirty_)\<close>: the vectors are
  value-initialised, so they hold zeros.
\<close>

definition WaveCache_new :: "nat \<Rightarrow> double \<Rightarrow> double \<Rightarrow> double \<Rightarrow> 32 word \<Rightarrow> WaveCache" where
  "WaveCache_new a_len pixelsPerSecond a_rate t0 a_dirty =
     \<lparr>dirty = a_dirty, len = a_len, start = t0, pps = pixelsPerSecond,
      rate = double_to_int a_rate,
      where_c = replicate (1 + a_len) 0,
      min_c = replicate a_len 0, max_c = replicate a_len 0, rms_c = replicate a_len 0\<rparr>"

text \<open>
  \<^verbatim>\<open>class WaveClipWaveformCache\<close>: one \<^verbatim>\<open>std::unique_ptr<WaveCache>\<close> for each channel
  (\<open>None\<close> is the null pointer) and the counter \<^verbatim>\<open>mDirty\<close>.
\<close>

record WaveClipWaveformCache =
  mWaveCaches :: "WaveCache option list"
  mDirty :: "32 word"

text \<open>
  \<^verbatim>\<open>WaveDisplay\<close>, the request and its answer. \<^verbatim>\<open>where\<close>, \<^verbatim>\<open>min\<close>, \<^verbatim>\<open>max\<close> and
  \<^verbatim>\<open>rms\<close> are pointers in the source; the model holds the arrays they point to, and
  \<open>where_d = None\<close> is the null pointer that selects the cache path. The source reads
  the width through \<^verbatim>\<open>(int)display.width\<close> into a \<^verbatim>\<open>size_t\<close>; the model covers the
  non-negative widths.
\<close>

record WaveDisplay =
  width :: nat
  where_d :: "int list option"
  min_d :: "real list"
  max_d :: "real list"
  rms_d :: "real list"
  ownWhere :: "int list"

text \<open>
  What the function reads from the \<^verbatim>\<open>WaveClip\<close>: the trim, the rate, for each channel
  the number of samples of its sequence (\<^verbatim>\<open>GetSequence(channel)->GetNumSamples()\<close>), and
  the append buffer. The buffer's samples are held as the floats the source reads them
  as (directly for \<^verbatim>\<open>floatSample\<close>, through \<^verbatim>\<open>SamplesToFloats\<close> otherwise).
\<close>

record WaveClip =
  GetTrimLeft :: double
  GetRate :: double
  GetNumSamples :: "nat \<Rightarrow> int"
  GetAppendBufferLen :: nat
  GetAppendBuffer :: "nat \<Rightarrow> real list"

text \<open>
  The functions \<^verbatim>\<open>GetWaveDisplay\<close> calls that are declared in \<^verbatim>\<open>WaveClipUtilities.h\<close>
  and \<^verbatim>\<open>GetWaveDisplay.h\<close> and defined elsewhere. They are parameters of the model.

  \<^item> \<open>findCorrection oldWhere oldLen newLen t0 rate samplesPerPixel\<close> gives the values
    the call leaves in \<^verbatim>\<open>oldX0\<close> and \<^verbatim>\<open>correction\<close> (both are 0 before the call);
  \<^item> \<open>fillWhere where len bias correction t0 rate samplesPerPixel\<close> gives the vector
    the call leaves in \<^verbatim>\<open>where\<close>;
  \<^item> \<open>seqGetWaveDisplay channel min max rms len where\<close> is the summarizer of the
    channel's sequence, \<^verbatim>\<open>::GetWaveDisplay(*sequence, min, max, rms, len, where)\<close>: it
    is given the \<open>len\<close> columns it may write and the boundaries from its first column
    on, and returns whether it succeeded and what the columns hold afterwards.
\<close>

record Externals =
  findCorrection :: "int list \<Rightarrow> nat \<Rightarrow> nat \<Rightarrow> double \<Rightarrow> double \<Rightarrow> double \<Rightarrow> int \<times> double"
  fillWhere :: "int list \<Rightarrow> nat \<Rightarrow> double \<Rightarrow> double \<Rightarrow> double \<Rightarrow> double \<Rightarrow> double \<Rightarrow> int list"
  seqGetWaveDisplay ::
    "nat \<Rightarrow> real list \<Rightarrow> real list \<Rightarrow> real list \<Rightarrow> nat \<Rightarrow> int list
       \<Rightarrow> bool \<times> real list \<times> real list \<times> real list"

section \<open>GetWaveDisplay\<close>

subsection \<open>The tests on the cached entry\<close>

text \<open>
  \<^verbatim>\<open>ppsMatch\<close>: the entry exists and the difference of the two pixel durations,
  accumulated over the requested pixels, is less than a sample period.
\<close>

definition ppsMatch :: "WaveCache option \<Rightarrow> double \<Rightarrow> nat \<Rightarrow> double \<Rightarrow> bool" where
  "ppsMatch waveCache tstep numPixels a_rate =
     (case waveCache of
        None \<Rightarrow> False
      | Some c \<Rightarrow>
          dless (dmul (dabs (dsub tstep (ddiv (Fin 1) (pps c)))) (Fin (real numPixels)))
                (ddiv (Fin 1) a_rate))"

text \<open>\<^verbatim>\<open>match\<close>: the entry may be consulted for this request.\<close>

definition cacheMatch :: "WaveCache option \<Rightarrow> double \<Rightarrow> nat \<Rightarrow> double \<Rightarrow> 32 word \<Rightarrow> bool" where
  "cacheMatch waveCache tstep numPixels a_rate a_dirty =
     (case waveCache of
        None \<Rightarrow> False
      | Some c \<Rightarrow>
          ppsMatch waveCache tstep numPixels a_rate \<and> 0 < len c \<and> dirty c = a_dirty)"

text \<open>The condition of the branch that satisfies the request completely from the cache.\<close>

definition exactHit ::
  "WaveCache option \<Rightarrow> double \<Rightarrow> nat \<Rightarrow> double \<Rightarrow> 32 word \<Rightarrow> double \<Rightarrow> bool" where
  "exactHit waveCache tstep numPixels a_rate a_dirty t0 =
     (case waveCache of
        None \<Rightarrow> False
      | Some c \<Rightarrow>
          cacheMatch waveCache tstep numPixels a_rate a_dirty \<and> deq (start c) t0 \<and>
          numPixels \<le> len c)"

subsection \<open>Building the new entry\<close>

text \<open>
  \<^verbatim>\<open>memcpy(&dst[dstIdx], &src[srcIdx], n * sizeof(float))\<close>: \<open>n\<close> elements of \<open>src\<close>
  from \<open>srcIdx\<close> on replace those of \<open>dst\<close> from \<open>dstIdx\<close> on.
\<close>

definition memcpy_floats :: "real list \<Rightarrow> nat \<Rightarrow> real list \<Rightarrow> int \<Rightarrow> nat \<Rightarrow> real list" where
  "memcpy_floats dst dstIdx src srcIdx n =
     map (\<lambda>i. if dstIdx \<le> i \<and> i < dstIdx + n then src ! nat (srcIdx + int (i - dstIdx))
               else dst ! i)
       [0..<length dst]"

text \<open>
  Lines 133 to 136: the pixels \<^verbatim>\<open>[copyBegin, copyEnd)\<close> of the request that have a
  pixel of the old entry under them, when the first pixel of the request maps to
  \<^verbatim>\<open>oldX0\<close> in the old entry. \<^verbatim>\<open>oldX0\<close> is an \<^verbatim>\<open>int\<close>; the model computes on it
  without the overflow that C++ leaves undefined.
\<close>

definition copyRange :: "int \<Rightarrow> nat \<Rightarrow> nat \<Rightarrow> nat \<times> nat" where
  "copyRange oldX0 oldLen numPixels =
     (min numPixels (nat (max 0 (- oldX0))),
      min numPixels (nat (max 0 (int oldLen - oldX0))))"

text \<open>Lines 151 and 152: the range \<^verbatim>\<open>[p0, p1)\<close> of pixels to fetch.\<close>

definition recomputeRange :: "nat \<Rightarrow> nat \<Rightarrow> nat \<Rightarrow> nat \<times> nat" where
  "recomputeRange copyBegin copyEnd numPixels =
     (if 0 < copyBegin then 0 else copyEnd,
      if numPixels \<le> copyEnd then copyBegin else numPixels)"

text \<open>
  The state of the function where the two paths join (line 170): the arrays that
  \<^verbatim>\<open>min\<close>, \<^verbatim>\<open>max\<close>, \<^verbatim>\<open>rms\<close> and \<^verbatim>\<open>pWhere\<close> point to, the range \<^verbatim>\<open>[p0, p1)\<close>, and
  the locals that decided them.
\<close>

record Prepared =
  p_oldX0 :: int
  p_correction :: double
  p_copyBegin :: nat
  p_copyEnd :: nat
  p_oldCache :: "WaveCache option"
  p_min :: "real list"
  p_max :: "real list"
  p_rms :: "real list"
  p_where :: "int list"
  p_p0 :: nat
  p_p1 :: nat

text \<open>
  Lines 121 to 167, the branch that replaces the entry. \<open>waveCache\<close> is the entry moved
  into \<^verbatim>\<open>oldCache\<close>, and \<open>a_match\<close> is \<^verbatim>\<open>match\<close>, which is true only of an entry
  that exists.
\<close>

definition prepare ::
  "Externals \<Rightarrow> WaveCache option \<Rightarrow> 32 word \<Rightarrow> bool \<Rightarrow> nat \<Rightarrow> double \<Rightarrow> double \<Rightarrow> double
     \<Rightarrow> double \<Rightarrow> Prepared" where
  "prepare ext waveCache a_dirty a_match numPixels t0 pixelsPerSecond a_rate samplesPerPixel =
     (let oldCache = waveCache;
          (oldX0, correction) =
            (case oldCache of
               Some c \<Rightarrow>
                 if a_match
                 then findCorrection ext (where_c c) (len c) numPixels t0 a_rate samplesPerPixel
                 else (0, Fin 0)
             | None \<Rightarrow> (0, Fin 0));
          (copyBegin, copyEnd) =
            (case oldCache of
               Some c \<Rightarrow> if a_match then copyRange oldX0 (len c) numPixels else (0, 0)
             | None \<Rightarrow> (0, 0));
          oldCache = (if \<not> copyBegin < copyEnd then None else oldCache);
          newCache = WaveCache_new numPixels pixelsPerSecond a_rate t0 a_dirty;
          wh = fillWhere ext (where_c newCache) numPixels (Fin 0) correction t0 a_rate
                 samplesPerPixel;
          (p0, p1) = recomputeRange copyBegin copyEnd numPixels;
          n = copyEnd - copyBegin;
          srcIdx = int copyBegin + oldX0
      in \<lparr>p_oldX0 = oldX0, p_correction = correction,
          p_copyBegin = copyBegin, p_copyEnd = copyEnd, p_oldCache = oldCache,
          p_min = (case oldCache of
                     Some c \<Rightarrow> memcpy_floats (min_c newCache) copyBegin (min_c c) srcIdx n
                   | None \<Rightarrow> min_c newCache),
          p_max = (case oldCache of
                     Some c \<Rightarrow> memcpy_floats (max_c newCache) copyBegin (max_c c) srcIdx n
                   | None \<Rightarrow> max_c newCache),
          p_rms = (case oldCache of
                     Some c \<Rightarrow> memcpy_floats (rms_c newCache) copyBegin (rms_c c) srcIdx n
                   | None \<Rightarrow> rms_c newCache),
          p_where = wh, p_p0 = p0, p_p1 = p1\<rparr>)"

subsection \<open>Computing the columns of the range\<close>

text \<open>
  Lines 182 to 185: the first column of \<^verbatim>\<open>[p0, p1)\<close> whose right boundary is beyond the
  samples of the sequence, or \<open>p1\<close>. The columns to visit are passed as a list.
\<close>

fun firstAppendColumn :: "int list \<Rightarrow> int \<Rightarrow> nat list \<Rightarrow> nat \<Rightarrow> nat" where
  "firstAppendColumn wh numSamples [] p1 = p1"
| "firstAppendColumn wh numSamples (a # cols) p1 =
     (if numSamples < wh ! (a + 1) then a else firstAppendColumn wh numSamples cols p1)"

text \<open>
  Lines 220 to 231: the extrema and the sum of squares of \<^verbatim>\<open>pb[0 .. len)\<close>, started
  from \<^verbatim>\<open>pb[0]\<close> and continued over \<^verbatim>\<open>pb[1 .. len)\<close>.
\<close>

fun sampleLoop :: "real list \<Rightarrow> real \<times> real \<times> real \<Rightarrow> real \<times> real \<times> real" where
  "sampleLoop [] acc = acc"
| "sampleLoop (val # vals) (theMax, theMin, sumsq) =
     sampleLoop vals (max theMax val, min theMin val, sumsq + val * val)"

definition summarizeSamples :: "real list \<Rightarrow> nat \<Rightarrow> real \<times> real \<times> real" where
  "summarizeSamples pb n =
     (let val = pb ! 0 in sampleLoop (take (n - 1) (drop 1 pb)) (val, val, val * val))"

text \<open>
  Lines 195 to 238, the body of the loop over the columns \<^verbatim>\<open>[a, p1)\<close>: column \<open>i\<close>
  against the append buffer. The state is the three arrays and \<^verbatim>\<open>didUpdate\<close>. The
  source reads \<^verbatim>\<open>pb[0 .. len)\<close> inside the buffer, which holds
  \<^verbatim>\<open>GetAppendBufferLen()\<close> samples.
\<close>

definition appendColumn ::
  "WaveClip \<Rightarrow> nat \<Rightarrow> int list \<Rightarrow> int \<Rightarrow> nat
     \<Rightarrow> real list \<times> real list \<times> real list \<times> bool
     \<Rightarrow> real list \<times> real list \<times> real list \<times> bool" where
  "appendColumn clip channel wh numSamples i s =
     (let left = max 0 (wh ! i - numSamples);
          right = min (int (GetAppendBufferLen clip)) (wh ! (i + 1) - numSamples)
      in if left < right
         then (let sLeft = nat left;
                   n = nat (right - left);
                   pb = drop sLeft (GetAppendBuffer clip channel);
                   (theMax, theMin, sumsq) = summarizeSamples pb n;
                   (mn, mx, rm, didUpdate) = s
               in (mn[i := theMin], mx[i := theMax], rm[i := sqrt (sumsq / real n)], True))
         else s)"

text \<open>Lines 194 to 239: the loop, over the list of its columns.\<close>

fun appendColumns ::
  "WaveClip \<Rightarrow> nat \<Rightarrow> int list \<Rightarrow> int \<Rightarrow> nat list
     \<Rightarrow> real list \<times> real list \<times> real list \<times> bool
     \<Rightarrow> real list \<times> real list \<times> real list \<times> bool" where
  "appendColumns clip channel wh numSamples [] s = s"
| "appendColumns clip channel wh numSamples (i # cols) s =
     appendColumns clip channel wh numSamples cols (appendColumn clip channel wh numSamples i s)"

text \<open>
  What the sequence's summarizer leaves in the \<open>n\<close> columns from \<open>p0\<close> on: it is passed
  \<^verbatim>\<open>&min[p0]\<close> and the count, and the other columns are out of its reach.
\<close>

definition writeColumns :: "real list \<Rightarrow> nat \<Rightarrow> nat \<Rightarrow> real list \<Rightarrow> real list" where
  "writeColumns xs p0 n ys =
     map (\<lambda>i. if p0 \<le> i \<and> i < p0 + n then ys ! (i - p0) else xs ! i) [0..<length xs]"

text \<open>
  The result of lines 170 to 258: \<open>f_ok\<close> is false where the source returns false,
  and \<open>f_calls\<close> lists the ranges \<^verbatim>\<open>[p0, p1)\<close> of the calls of the sequence's summarizer
  (an instrument of the model: the source keeps no such list).
\<close>

record Filled =
  f_ok :: bool
  f_min :: "real list"
  f_max :: "real list"
  f_rms :: "real list"
  f_calls :: "(nat \<times> nat) list"

definition fillColumns ::
  "Externals \<Rightarrow> WaveClip \<Rightarrow> nat \<Rightarrow> real list \<Rightarrow> real list \<Rightarrow> real list \<Rightarrow> int list
     \<Rightarrow> nat \<Rightarrow> nat \<Rightarrow> Filled" where
  "fillColumns ext clip channel mn mx rm wh p0 p1 =
     (if p0 < p1
      then (let numSamples = GetNumSamples clip channel;
                a = firstAppendColumn wh numSamples [p0..<p1] p1;
                (mn1, mx1, rm1, didUpdate) =
                  (if a < p1
                   then appendColumns clip channel wh numSamples [a..<p1] (mn, mx, rm, False)
                   else (mn, mx, rm, False));
                p1 = (if didUpdate then a else p1)
            in if p0 < p1
               then (let n = p1 - p0;
                         (success, smn, smx, srm) =
                           seqGetWaveDisplay ext channel (take n (drop p0 mn1))
                             (take n (drop p0 mx1)) (take n (drop p0 rm1)) n (drop p0 wh)
                     in \<lparr>f_ok = success, f_min = writeColumns mn1 p0 n smn,
                         f_max = writeColumns mx1 p0 n smx, f_rms = writeColumns rm1 p0 n srm,
                         f_calls = [(p0, p1)]\<rparr>)
               else \<lparr>f_ok = True, f_min = mn1, f_max = mx1, f_rms = rm1, f_calls = []\<rparr>)
      else \<lparr>f_ok = True, f_min = mn, f_max = mx, f_rms = rm, f_calls = []\<rparr>)"

subsection \<open>The whole function\<close>

text \<open>
  What a call leaves behind: the value returned, the display, the cache object, and
  the calls of the sequence's summarizer.
\<close>

record Outcome =
  ok :: bool
  display :: WaveDisplay
  cache :: WaveClipWaveformCache
  seqCalls :: "(nat \<times> nat) list"

text \<open>
  \<^verbatim>\<open>WaveClipWaveformCache::GetWaveDisplay(clip, channel, display, t0, pixelsPerSecond)\<close>.
  On the path that replaces the entry the source installs the new entry first (line 141)
  and fills it afterwards through the pointers \<^verbatim>\<open>min\<close>, \<^verbatim>\<open>max\<close>, \<^verbatim>\<open>rms\<close>; the
  installed entry therefore holds whatever has been written when the function returns,
  true or false. \<^verbatim>\<open>mWaveCaches[channel]\<close> is defined for a channel below the size of the
  vector.
\<close>

definition GetWaveDisplay ::
  "Externals \<Rightarrow> WaveClip \<Rightarrow> WaveClipWaveformCache \<Rightarrow> nat \<Rightarrow> WaveDisplay \<Rightarrow> double \<Rightarrow> double
     \<Rightarrow> Outcome" where
  "GetWaveDisplay ext clip this channel disp t0_arg pixelsPerSecond =
     (let waveCache = mWaveCaches this ! channel;
          t0 = dadd t0_arg (GetTrimLeft clip);
          allocated = (where_d disp \<noteq> None);
          numPixels = width disp
      in if allocated
         then (let f = fillColumns ext clip channel (min_d disp) (max_d disp) (rms_d disp)
                         (ownWhere disp) 0 numPixels
               in \<lparr>ok = f_ok f,
                   display = disp\<lparr>min_d := f_min f, max_d := f_max f, rms_d := f_rms f\<rparr>,
                   cache = this, seqCalls = f_calls f\<rparr>)
         else (let tstep = ddiv (Fin 1) pixelsPerSecond;
                   a_rate = GetRate clip;
                   samplesPerPixel = dmul a_rate tstep;
                   a_match = cacheMatch waveCache tstep numPixels a_rate (mDirty this)
               in if exactHit waveCache tstep numPixels a_rate (mDirty this) t0
                  then (case waveCache of
                          Some c \<Rightarrow>
                            \<lparr>ok = True,
                             display = disp\<lparr>where_d := Some (where_c c), min_d := min_c c,
                                            max_d := max_c c, rms_d := rms_c c\<rparr>,
                             cache = this, seqCalls = []\<rparr>
                        | None \<Rightarrow> \<lparr>ok = True, display = disp, cache = this, seqCalls = []\<rparr>)
                  else (let p = prepare ext waveCache (mDirty this) a_match numPixels t0
                                  pixelsPerSecond a_rate samplesPerPixel;
                            f = fillColumns ext clip channel (p_min p) (p_max p) (p_rms p)
                                  (p_where p) (p_p0 p) (p_p1 p);
                            newCache =
                              (WaveCache_new numPixels pixelsPerSecond a_rate t0 (mDirty this))
                                \<lparr>where_c := p_where p, min_c := f_min f, max_c := f_max f,
                                 rms_c := f_rms f\<rparr>;
                            this = this\<lparr>mWaveCaches := (mWaveCaches this)[channel := Some newCache]\<rparr>
                        in \<lparr>ok = f_ok f,
                            display =
                              (if f_ok f
                               then disp\<lparr>where_d := Some (p_where p), min_d := f_min f,
                                         max_d := f_max f, rms_d := f_rms f\<rparr>
                               else disp),
                            cache = this, seqCalls = f_calls f\<rparr>)))"

subsection \<open>The other members\<close>

text \<open>
  The constructor makes a default entry for each channel. \<^verbatim>\<open>mDirty\<close> is initialised in
  the class declaration, which is in the header; its first value is a parameter here.
\<close>

definition WaveClipWaveformCache_new :: "nat \<Rightarrow> 32 word \<Rightarrow> WaveClipWaveformCache" where
  "WaveClipWaveformCache_new nChannels a_dirty =
     \<lparr>mWaveCaches = replicate nChannels (Some WaveCache_default), mDirty = a_dirty\<rparr>"

definition MarkChanged :: "WaveClipWaveformCache \<Rightarrow> WaveClipWaveformCache" where
  "MarkChanged this = this\<lparr>mDirty := mDirty this + 1\<rparr>"


section \<open>Notions the properties are stated with\<close>

subsection \<open>The columns of the append buffer\<close>

text \<open>
  The sample range \<^verbatim>\<open>[where[i], where[i + 1])\<close> of column \<open>i\<close>, counted from the end of
  the sequence and clipped to the append buffer: the \<^verbatim>\<open>left\<close> and \<^verbatim>\<open>right\<close> of the
  loop at line 194, and the samples between them.
\<close>

definition clipLeft :: "int list \<Rightarrow> int \<Rightarrow> nat \<Rightarrow> int" where
  "clipLeft wh ns i = max 0 (wh ! i - ns)"

definition clipRight :: "WaveClip \<Rightarrow> int list \<Rightarrow> int \<Rightarrow> nat \<Rightarrow> int" where
  "clipRight clip wh ns i = min (int (GetAppendBufferLen clip)) (wh ! (i + 1) - ns)"

definition clipped :: "WaveClip \<Rightarrow> nat \<Rightarrow> int list \<Rightarrow> int \<Rightarrow> nat \<Rightarrow> real list" where
  "clipped clip ch wh ns i =
     take (nat (clipRight clip wh ns i - clipLeft wh ns i))
       (drop (nat (clipLeft wh ns i)) (GetAppendBuffer clip ch))"

text \<open>The clipped range of column \<open>i\<close> is not empty.\<close>

definition appendHit :: "WaveClip \<Rightarrow> int list \<Rightarrow> int \<Rightarrow> nat \<Rightarrow> bool" where
  "appendHit clip wh ns i = (clipLeft wh ns i < clipRight clip wh ns i)"

text \<open>The summary of the clipped samples of column \<open>i\<close>: extrema and root mean square.\<close>

definition colMin :: "WaveClip \<Rightarrow> nat \<Rightarrow> int list \<Rightarrow> int \<Rightarrow> nat \<Rightarrow> real" where
  "colMin clip ch wh ns i = Min (set (clipped clip ch wh ns i))"

definition colMax :: "WaveClip \<Rightarrow> nat \<Rightarrow> int list \<Rightarrow> int \<Rightarrow> nat \<Rightarrow> real" where
  "colMax clip ch wh ns i = Max (set (clipped clip ch wh ns i))"

definition colRms :: "WaveClip \<Rightarrow> nat \<Rightarrow> int list \<Rightarrow> int \<Rightarrow> nat \<Rightarrow> real" where
  "colRms clip ch wh ns i =
     sqrt (sum_list (map (\<lambda>v. v * v) (clipped clip ch wh ns i))
           / real (length (clipped clip ch wh ns i)))"

text \<open>
  The column \<^verbatim>\<open>a\<close> where the loop at line 182 stops, whether the loop at line 194
  updates a column, and the end of the range left to the sequence (line 243).
\<close>

definition appendStart :: "WaveClip \<Rightarrow> nat \<Rightarrow> int list \<Rightarrow> nat \<Rightarrow> nat \<Rightarrow> nat" where
  "appendStart clip ch wh p0 p1 = firstAppendColumn wh (GetNumSamples clip ch) [p0..<p1] p1"

definition anyAppendHit :: "WaveClip \<Rightarrow> nat \<Rightarrow> int list \<Rightarrow> nat \<Rightarrow> nat \<Rightarrow> bool" where
  "anyAppendHit clip ch wh p0 p1 =
     (\<exists>i\<in>{appendStart clip ch wh p0 p1..<p1}. appendHit clip wh (GetNumSamples clip ch) i)"

definition seqEnd :: "WaveClip \<Rightarrow> nat \<Rightarrow> int list \<Rightarrow> nat \<Rightarrow> nat \<Rightarrow> nat" where
  "seqEnd clip ch wh p0 p1 =
     (if anyAppendHit clip ch wh p0 p1 then appendStart clip ch wh p0 p1 else p1)"

subsection \<open>A request on the cache path\<close>

text \<open>
  For a request without buffers of its own: the test of the exact hit as the function
  evaluates it, and the state that the replacement branch reaches at line 170.
\<close>

definition requestHit ::
  "WaveClip \<Rightarrow> WaveClipWaveformCache \<Rightarrow> nat \<Rightarrow> WaveDisplay \<Rightarrow> double \<Rightarrow> double \<Rightarrow> bool" where
  "requestHit clip this channel disp t0_arg pixelsPerSecond =
     exactHit (mWaveCaches this ! channel) (ddiv (Fin 1) pixelsPerSecond) (width disp)
       (GetRate clip) (mDirty this) (dadd t0_arg (GetTrimLeft clip))"

definition requestPrepared ::
  "Externals \<Rightarrow> WaveClip \<Rightarrow> WaveClipWaveformCache \<Rightarrow> nat \<Rightarrow> WaveDisplay \<Rightarrow> double \<Rightarrow> double
     \<Rightarrow> Prepared" where
  "requestPrepared ext clip this channel disp t0_arg pixelsPerSecond =
     prepare ext (mWaveCaches this ! channel) (mDirty this)
       (cacheMatch (mWaveCaches this ! channel) (ddiv (Fin 1) pixelsPerSecond) (width disp)
          (GetRate clip) (mDirty this))
       (width disp) (dadd t0_arg (GetTrimLeft clip)) pixelsPerSecond (GetRate clip)
       (dmul (GetRate clip) (ddiv (Fin 1) pixelsPerSecond))"

subsection \<open>The states a cache object goes through\<close>


subsection \<open>Concrete collaborators\<close>

text \<open>
  Stubs for the examples: a correction solver that answers the offset \<open>x0\<close> with no
  sub-sample correction, a grid builder that answers the boundaries \<open>wh\<close>, and a
  summarizer of the sequence that either succeeds after writing \<open>v\<close> into every column
  it was asked for, or fails and leaves the columns as they were.
\<close>

definition exampleExt :: "int \<Rightarrow> int list \<Rightarrow> bool \<Rightarrow> real \<Rightarrow> Externals" where
  "exampleExt x0 wh success v =
     \<lparr>findCorrection = (\<lambda>oldWhere oldLen newLen t0 r spp. (x0, Fin 0)),
      fillWhere = (\<lambda>w n bias corr t0 r spp. wh),
      seqGetWaveDisplay =
        (\<lambda>ch mn mx rm n w.
           if success then (True, replicate n v, replicate n v, replicate n v)
           else (False, mn, mx, rm))\<rparr>"

text \<open>
  A clip of one rate (10 samples a second) with no trim, \<open>ns\<close> samples in the sequence
  of every channel and the samples \<open>ab\<close> in the append buffer.
\<close>

definition exampleClip :: "int \<Rightarrow> real list \<Rightarrow> WaveClip" where
  "exampleClip ns ab =
     \<lparr>GetTrimLeft = Fin 0, GetRate = Fin 10, GetNumSamples = (\<lambda>ch. ns),
      GetAppendBufferLen = length ab, GetAppendBuffer = (\<lambda>ch. ab)\<rparr>"

text \<open>A fresh display of \<open>w\<close> pixels, as a caller without buffers of its own passes it.\<close>

definition exampleDisplay :: "nat \<Rightarrow> WaveDisplay" where
  "exampleDisplay w =
     \<lparr>width = w, where_d = None, min_d = [], max_d = [], rms_d = [], ownWhere = []\<rparr>"

text \<open>
  The cache of a one-channel clip after a first request of two pixels at time 0 and one
  pixel a second, which the sequence answered with 7 in every column; below, the entry
  that the request installs.
\<close>

definition exampleCache :: WaveClipWaveformCache where
  "exampleCache =
     cache (GetWaveDisplay (exampleExt 0 [0, 10, 20] True 7) (exampleClip 100 [])
              (WaveClipWaveformCache_new 1 0) 0 (exampleDisplay 2) (Fin 0) (Fin 1))"

definition exampleEntry :: WaveCache where
  "exampleEntry =
     \<lparr>dirty = 0, len = 2, start = Fin 0, pps = Fin 1, rate = 10,
      where_c = [0, 10, 20], min_c = [7, 7], max_c = [7, 7], rms_c = [7, 7]\<rparr>"

section \<open>Lemmas\<close>

subsection \<open>Arrays and loops\<close>

lemma length_memcpy_floats [simp]: "length (memcpy_floats dst dstIdx src srcIdx n) = length dst"
  by (simp add: memcpy_floats_def)

lemma nth_memcpy_floats:
  "i < length dst \<Longrightarrow>
   memcpy_floats dst dstIdx src srcIdx n ! i =
     (if dstIdx \<le> i \<and> i < dstIdx + n then src ! nat (srcIdx + int (i - dstIdx)) else dst ! i)"
  by (simp add: memcpy_floats_def)

lemma length_writeColumns [simp]: "length (writeColumns xs p0 n ys) = length xs"
  by (simp add: writeColumns_def)

lemma nth_writeColumns:
  "i < length xs \<Longrightarrow>
   writeColumns xs p0 n ys ! i = (if p0 \<le> i \<and> i < p0 + n then ys ! (i - p0) else xs ! i)"
  by (simp add: writeColumns_def)

lemma firstAppendColumn_upt_bounds:
  "p0 \<le> p1 \<Longrightarrow> p0 \<le> firstAppendColumn wh ns [p0..<p1] p1 \<and> firstAppendColumn wh ns [p0..<p1] p1 \<le> p1"
proof (induction "p1 - p0" arbitrary: p0)
  case 0
  then show ?case by simp
next
  case (Suc k)
  then have lt: "p0 < p1" by linarith
  have "k = p1 - Suc p0" using Suc.hyps(2) by linarith
  from Suc.hyps(1)[OF this] lt
  have "Suc p0 \<le> firstAppendColumn wh ns [Suc p0..<p1] p1 \<and> firstAppendColumn wh ns [Suc p0..<p1] p1 \<le> p1"
    by simp
  then show ?case using lt by (simp add: upt_conv_Cons)
qed

lemma firstAppendColumn_upt_stop:
  "p0 \<le> p1 \<Longrightarrow> firstAppendColumn wh ns [p0..<p1] p1 < p1 \<Longrightarrow>
   ns < wh ! (firstAppendColumn wh ns [p0..<p1] p1 + 1)"
proof (induction "p1 - p0" arbitrary: p0)
  case 0
  then show ?case by simp
next
  case (Suc k)
  then have lt: "p0 < p1" by linarith
  have k: "k = p1 - Suc p0" using Suc.hyps(2) by linarith
  show ?case
  proof (cases "ns < wh ! (p0 + 1)")
    case True
    then show ?thesis using lt by (simp add: upt_conv_Cons)
  next
    case False
    then have eq: "firstAppendColumn wh ns [p0..<p1] p1 = firstAppendColumn wh ns [Suc p0..<p1] p1"
      using lt by (simp add: upt_conv_Cons)
    from Suc.hyps(1)[OF k] lt Suc.prems(2) eq show ?thesis by simp
  qed
qed

lemma firstAppendColumn_upt_before:
  "p0 \<le> j \<Longrightarrow> j < firstAppendColumn wh ns [p0..<p1] p1 \<Longrightarrow> j < p1 \<Longrightarrow> wh ! (j + 1) \<le> ns"
proof (induction "p1 - p0" arbitrary: p0)
  case 0
  then show ?case by simp
next
  case (Suc k)
  then have lt: "p0 < p1" by linarith
  have k: "k = p1 - Suc p0" using Suc.hyps(2) by linarith
  show ?case
  proof (cases "ns < wh ! (p0 + 1)")
    case True
    then have "firstAppendColumn wh ns [p0..<p1] p1 = p0" using lt by (simp add: upt_conv_Cons)
    with Suc.prems show ?thesis by simp
  next
    case False
    then have eq: "firstAppendColumn wh ns [p0..<p1] p1 = firstAppendColumn wh ns [Suc p0..<p1] p1"
      using lt by (simp add: upt_conv_Cons)
    show ?thesis
    proof (cases "j = p0")
      case True
      then show ?thesis using False by simp
    next
      case False
      then have "Suc p0 \<le> j" using Suc.prems(1) by simp
      from Suc.hyps(1)[OF k this] Suc.prems eq show ?thesis by simp
    qed
  qed
qed

lemma sampleLoop_result:
  "sampleLoop vals (theMax, theMin, sumsq) =
     (fold max vals theMax, fold min vals theMin, sumsq + sum_list (map (\<lambda>v. v * v) vals))"
  by (induction vals arbitrary: theMax theMin sumsq) (simp_all add: max.commute min.commute)

lemma summarizeSamples_result:
  assumes "0 < n" "n \<le> length pb"
  shows "summarizeSamples pb n =
     (Max (set (take n pb)), Min (set (take n pb)), sum_list (map (\<lambda>v. v * v) (take n pb)))"
proof -
  obtain v vs where pb: "pb = v # vs" using assms by (cases pb) auto
  obtain m where n: "n = Suc m" using assms(1) by (cases n) auto
  have "Max (set (v # take m vs)) = fold max (take m vs) v"
    by (rule Max.set_eq_fold)
  moreover have "Min (set (v # take m vs)) = fold min (take m vs) v"
    by (rule Min.set_eq_fold)
  ultimately show ?thesis
    by (simp add: summarizeSamples_def pb n sampleLoop_result)
qed

lemma appendColumn_length:
  "appendColumn clip ch wh ns i (mn, mx, rm, d) = (mn', mx', rm', d') \<Longrightarrow>
   length mn' = length mn \<and> length mx' = length mx \<and> length rm' = length rm"
  by (auto simp: appendColumn_def Let_def split: if_splits prod.splits)

lemma appendColumn_other:
  "appendColumn clip ch wh ns i (mn, mx, rm, d) = (mn', mx', rm', d') \<Longrightarrow> j \<noteq> i \<Longrightarrow>
   mn' ! j = mn ! j \<and> mx' ! j = mx ! j \<and> rm' ! j = rm ! j"
  by (auto simp: appendColumn_def Let_def split: if_splits prod.splits)

lemma appendColumn_didUpdate:
  "appendColumn clip ch wh ns i (mn, mx, rm, d) = (mn', mx', rm', d') \<Longrightarrow> d \<Longrightarrow> d'"
  by (auto simp: appendColumn_def Let_def split: if_splits prod.splits)

lemma appendColumns_length:
  "appendColumns clip ch wh ns cols (mn, mx, rm, d) = (mn', mx', rm', d') \<Longrightarrow>
   length mn' = length mn \<and> length mx' = length mx \<and> length rm' = length rm"
proof (induction cols arbitrary: mn mx rm d)
  case Nil
  then show ?case by simp
next
  case (Cons i cols)
  obtain mn1 mx1 rm1 d1 where s: "appendColumn clip ch wh ns i (mn, mx, rm, d) = (mn1, mx1, rm1, d1)"
    by (cases "appendColumn clip ch wh ns i (mn, mx, rm, d)") auto
  from Cons.prems s have "appendColumns clip ch wh ns cols (mn1, mx1, rm1, d1) = (mn', mx', rm', d')"
    by simp
  from Cons.IH[OF this] appendColumn_length[OF s] show ?case by simp
qed

lemma appendColumns_other:
  "appendColumns clip ch wh ns cols (mn, mx, rm, d) = (mn', mx', rm', d') \<Longrightarrow> j \<notin> set cols \<Longrightarrow>
   mn' ! j = mn ! j \<and> mx' ! j = mx ! j \<and> rm' ! j = rm ! j"
proof (induction cols arbitrary: mn mx rm d)
  case Nil
  then show ?case by simp
next
  case (Cons i cols)
  obtain mn1 mx1 rm1 d1 where s: "appendColumn clip ch wh ns i (mn, mx, rm, d) = (mn1, mx1, rm1, d1)"
    by (cases "appendColumn clip ch wh ns i (mn, mx, rm, d)") auto
  from Cons.prems s have r: "appendColumns clip ch wh ns cols (mn1, mx1, rm1, d1) = (mn', mx', rm', d')"
    by simp
  from Cons.prems have "j \<notin> set cols" "j \<noteq> i" by auto
  with Cons.IH[OF r] appendColumn_other[OF s] show ?case by simp
qed

lemma appendColumns_didUpdate:
  "appendColumns clip ch wh ns cols (mn, mx, rm, d) = (mn', mx', rm', d') \<Longrightarrow> d \<Longrightarrow> d'"
proof (induction cols arbitrary: mn mx rm d)
  case Nil
  then show ?case by simp
next
  case (Cons i cols)
  obtain mn1 mx1 rm1 d1 where s: "appendColumn clip ch wh ns i (mn, mx, rm, d) = (mn1, mx1, rm1, d1)"
    by (cases "appendColumn clip ch wh ns i (mn, mx, rm, d)") auto
  from Cons.prems s have r: "appendColumns clip ch wh ns cols (mn1, mx1, rm1, d1) = (mn', mx', rm', d')"
    by simp
  from Cons.IH[OF r] appendColumn_didUpdate[OF s] Cons.prems(2) show ?case by simp
qed

lemma appendColumn_hit:
  assumes "appendColumn clip ch wh ns i (mn, mx, rm, d) = (mn', mx', rm', d')"
      and "clipLeft wh ns i < clipRight clip wh ns i"
      and "GetAppendBufferLen clip \<le> length (GetAppendBuffer clip ch)"
      and "i < length mn" "i < length mx" "i < length rm"
  shows "mn' ! i = Min (set (clipped clip ch wh ns i)) \<and>
         mx' ! i = Max (set (clipped clip ch wh ns i)) \<and>
         rm' ! i = sqrt (sum_list (map (\<lambda>v. v * v) (clipped clip ch wh ns i))
                          / real (length (clipped clip ch wh ns i))) \<and> d'"
proof -
  define l where "l = clipLeft wh ns i"
  define r where "r = clipRight clip wh ns i"
  define pb where "pb = drop (nat l) (GetAppendBuffer clip ch)"
  define n where "n = nat (r - l)"
  have l0: "0 \<le> l" by (simp add: l_def clipLeft_def)
  have rb: "r \<le> int (GetAppendBufferLen clip)" by (simp add: r_def clipRight_def)
  have lr: "l < r" using assms(2) by (simp add: l_def r_def)
  have n0: "0 < n" using lr by (simp add: n_def)
  have le: "n \<le> length pb" using lr assms(3) l0 rb by (simp add: n_def pb_def)
  have cl: "clipped clip ch wh ns i = take n pb"
    by (simp add: clipped_def n_def pb_def l_def r_def)
  have len: "length (take n pb) = n" using le by simp
  have step: "appendColumn clip ch wh ns i (mn, mx, rm, d) =
      (case summarizeSamples pb n of (theMax, theMin, sumsq) \<Rightarrow>
         (mn[i := theMin], mx[i := theMax], rm[i := sqrt (sumsq / real n)], True))"
    using lr unfolding appendColumn_def Let_def l_def r_def pb_def n_def clipLeft_def clipRight_def
    by simp
  have "(mn', mx', rm', d') =
      (mn[i := Min (set (take n pb))], mx[i := Max (set (take n pb))],
       rm[i := sqrt (sum_list (map (\<lambda>v. v * v) (take n pb)) / real n)], True)"
    using assms(1) step summarizeSamples_result[OF n0 le] by simp
  then show ?thesis using assms(4,5,6) cl len by simp
qed


lemma appendColumn_miss:
  "\<not> appendHit clip wh ns i \<Longrightarrow> appendColumn clip ch wh ns i s = s"
  unfolding appendColumn_def appendHit_def clipLeft_def clipRight_def Let_def
  by (rule if_not_P)

lemma appendColumns_result:
  assumes "appendColumns clip ch wh ns cols (mn, mx, rm, d) = (mn', mx', rm', d')"
      and "distinct cols"
      and "\<forall>i\<in>set cols. i < length mn \<and> i < length mx \<and> i < length rm"
      and "GetAppendBufferLen clip \<le> length (GetAppendBuffer clip ch)"
  shows "d' = (d \<or> (\<exists>i\<in>set cols. appendHit clip wh ns i)) \<and>
         (\<forall>j. mn' ! j = (if j \<in> set cols \<and> appendHit clip wh ns j
                          then colMin clip ch wh ns j else mn ! j)) \<and>
         (\<forall>j. mx' ! j = (if j \<in> set cols \<and> appendHit clip wh ns j
                          then colMax clip ch wh ns j else mx ! j)) \<and>
         (\<forall>j. rm' ! j = (if j \<in> set cols \<and> appendHit clip wh ns j
                          then colRms clip ch wh ns j else rm ! j))"
  using assms(1,2,3)
proof (induction cols arbitrary: mn mx rm d)
  case Nil
  then show ?case by simp
next
  case (Cons i cols)
  obtain mn1 mx1 rm1 d1 where s: "appendColumn clip ch wh ns i (mn, mx, rm, d) = (mn1, mx1, rm1, d1)"
    by (cases "appendColumn clip ch wh ns i (mn, mx, rm, d)") auto
  from Cons.prems(1) s have r: "appendColumns clip ch wh ns cols (mn1, mx1, rm1, d1) = (mn', mx', rm', d')"
    by simp
  have ni: "i \<notin> set cols" and dc: "distinct cols" using Cons.prems(2) by auto
  have li: "i < length mn" "i < length mx" "i < length rm" using Cons.prems(3) by auto
  have len1: "length mn1 = length mn" "length mx1 = length mx" "length rm1 = length rm"
    using appendColumn_length[OF s] by auto
  have b1: "\<forall>i\<in>set cols. i < length mn1 \<and> i < length mx1 \<and> i < length rm1"
    using Cons.prems(3) len1 by auto
  note IH = Cons.IH[OF r dc b1]
  show ?case
  proof (cases "appendHit clip wh ns i")
    case True
    then have lr: "clipLeft wh ns i < clipRight clip wh ns i" by (simp add: appendHit_def)
    from appendColumn_hit[OF s lr assms(4) li]
    have at: "mn1 ! i = colMin clip ch wh ns i" "mx1 ! i = colMax clip ch wh ns i"
             "rm1 ! i = colRms clip ch wh ns i" "d1"
      by (simp_all add: colMin_def colMax_def colRms_def)
    have other: "\<And>j. j \<noteq> i \<Longrightarrow> mn1 ! j = mn ! j \<and> mx1 ! j = mx ! j \<and> rm1 ! j = rm ! j"
      using appendColumn_other[OF s] by blast
    have "mn' ! j = (if j \<in> set (i # cols) \<and> appendHit clip wh ns j
                     then colMin clip ch wh ns j else mn ! j)" for j
      using IH at other[of j] ni True by (cases "j = i") auto
    moreover have "mx' ! j = (if j \<in> set (i # cols) \<and> appendHit clip wh ns j
                     then colMax clip ch wh ns j else mx ! j)" for j
      using IH at other[of j] ni True by (cases "j = i") auto
    moreover have "rm' ! j = (if j \<in> set (i # cols) \<and> appendHit clip wh ns j
                     then colRms clip ch wh ns j else rm ! j)" for j
      using IH at other[of j] ni True by (cases "j = i") auto
    moreover have "d' = (d \<or> (\<exists>i\<in>set (i # cols). appendHit clip wh ns i))"
      using IH at(4) True by simp
    ultimately show ?thesis by blast
  next
    case False
    then have "(mn1, mx1, rm1, d1) = (mn, mx, rm, d)"
      using s appendColumn_miss[of clip wh ns i ch "(mn, mx, rm, d)"] by simp
    then show ?thesis using IH ni False by auto
  qed
qed


lemma appendStart_bounds:
  "p0 \<le> p1 \<Longrightarrow> p0 \<le> appendStart clip ch wh p0 p1 \<and> appendStart clip ch wh p0 p1 \<le> p1"
  unfolding appendStart_def by (rule firstAppendColumn_upt_bounds)

lemma seqEnd_bounds:
  "p0 \<le> p1 \<Longrightarrow> p0 \<le> seqEnd clip ch wh p0 p1 \<and> seqEnd clip ch wh p0 p1 \<le> p1"
  using appendStart_bounds[of p0 p1 clip ch wh] by (simp add: seqEnd_def)

lemma fillColumns_unfold:
  assumes "p0 < p1"
      and "p1 \<le> length mn" "p1 \<le> length mx" "p1 \<le> length rm"
      and "GetAppendBufferLen clip \<le> length (GetAppendBuffer clip ch)"
  shows "\<exists>mn1 mx1 rm1.
     length mn1 = length mn \<and> length mx1 = length mx \<and> length rm1 = length rm \<and>
     (\<forall>j. mn1 ! j =
        (if appendStart clip ch wh p0 p1 \<le> j \<and> j < p1 \<and> appendHit clip wh (GetNumSamples clip ch) j
         then colMin clip ch wh (GetNumSamples clip ch) j else mn ! j)) \<and>
     (\<forall>j. mx1 ! j =
        (if appendStart clip ch wh p0 p1 \<le> j \<and> j < p1 \<and> appendHit clip wh (GetNumSamples clip ch) j
         then colMax clip ch wh (GetNumSamples clip ch) j else mx ! j)) \<and>
     (\<forall>j. rm1 ! j =
        (if appendStart clip ch wh p0 p1 \<le> j \<and> j < p1 \<and> appendHit clip wh (GetNumSamples clip ch) j
         then colRms clip ch wh (GetNumSamples clip ch) j else rm ! j)) \<and>
     fillColumns ext clip ch mn mx rm wh p0 p1 =
       (if p0 < seqEnd clip ch wh p0 p1
        then (case seqGetWaveDisplay ext ch
                     (take (seqEnd clip ch wh p0 p1 - p0) (drop p0 mn1))
                     (take (seqEnd clip ch wh p0 p1 - p0) (drop p0 mx1))
                     (take (seqEnd clip ch wh p0 p1 - p0) (drop p0 rm1))
                     (seqEnd clip ch wh p0 p1 - p0) (drop p0 wh) of
                (success, smn, smx, srm) \<Rightarrow>
                  \<lparr>f_ok = success,
                   f_min = writeColumns mn1 p0 (seqEnd clip ch wh p0 p1 - p0) smn,
                   f_max = writeColumns mx1 p0 (seqEnd clip ch wh p0 p1 - p0) smx,
                   f_rms = writeColumns rm1 p0 (seqEnd clip ch wh p0 p1 - p0) srm,
                   f_calls = [(p0, seqEnd clip ch wh p0 p1)]\<rparr>)
        else \<lparr>f_ok = True, f_min = mn1, f_max = mx1, f_rms = rm1, f_calls = []\<rparr>)"
proof -
  define ns where "ns = GetNumSamples clip ch"
  define a where "a = appendStart clip ch wh p0 p1"
  have a_eq: "firstAppendColumn wh ns [p0..<p1] p1 = a"
    by (simp add: a_def appendStart_def ns_def)
  have ab: "p0 \<le> a" "a \<le> p1"
    using appendStart_bounds[of p0 p1 clip ch wh] assms(1) by (simp_all add: a_def)
  obtain mn1 mx1 rm1 d1 where
    ac: "appendColumns clip ch wh ns [a..<p1] (mn, mx, rm, False) = (mn1, mx1, rm1, d1)"
    by (cases "appendColumns clip ch wh ns [a..<p1] (mn, mx, rm, False)") auto
  have inl: "\<forall>i\<in>set [a..<p1]. i < length mn \<and> i < length mx \<and> i < length rm"
    using assms(2,3,4) by auto
  note res = appendColumns_result[OF ac distinct_upt inl assms(5)]
  note lens = appendColumns_length[OF ac]
  have d1: "d1 = anyAppendHit clip ch wh p0 p1"
    using res by (simp add: anyAppendHit_def a_def ns_def)
  have branch: "(if a < p1 then appendColumns clip ch wh ns [a..<p1] (mn, mx, rm, False)
                 else (mn, mx, rm, False)) = (mn1, mx1, rm1, d1)"
  proof (cases "a < p1")
    case True
    then show ?thesis using ac by simp
  next
    case False
    then have "[a..<p1] = []" by simp
    with ac False show ?thesis by simp
  qed
  have se: "(if d1 then a else p1) = seqEnd clip ch wh p0 p1"
    by (simp add: seqEnd_def d1 a_def)
  have fc: "fillColumns ext clip ch mn mx rm wh p0 p1 =
       (if p0 < seqEnd clip ch wh p0 p1
        then (case seqGetWaveDisplay ext ch
                     (take (seqEnd clip ch wh p0 p1 - p0) (drop p0 mn1))
                     (take (seqEnd clip ch wh p0 p1 - p0) (drop p0 mx1))
                     (take (seqEnd clip ch wh p0 p1 - p0) (drop p0 rm1))
                     (seqEnd clip ch wh p0 p1 - p0) (drop p0 wh) of
                (success, smn, smx, srm) \<Rightarrow>
                  \<lparr>f_ok = success,
                   f_min = writeColumns mn1 p0 (seqEnd clip ch wh p0 p1 - p0) smn,
                   f_max = writeColumns mx1 p0 (seqEnd clip ch wh p0 p1 - p0) smx,
                   f_rms = writeColumns rm1 p0 (seqEnd clip ch wh p0 p1 - p0) srm,
                   f_calls = [(p0, seqEnd clip ch wh p0 p1)]\<rparr>)
        else \<lparr>f_ok = True, f_min = mn1, f_max = mx1, f_rms = rm1, f_calls = []\<rparr>)"
    unfolding fillColumns_def Let_def ns_def[symmetric] a_eq branch
    using assms(1) se by simp
  have "\<forall>j. mn1 ! j =
        (if a \<le> j \<and> j < p1 \<and> appendHit clip wh ns j then colMin clip ch wh ns j else mn ! j)"
    using res by simp
  moreover have "\<forall>j. mx1 ! j =
        (if a \<le> j \<and> j < p1 \<and> appendHit clip wh ns j then colMax clip ch wh ns j else mx ! j)"
    using res by simp
  moreover have "\<forall>j. rm1 ! j =
        (if a \<le> j \<and> j < p1 \<and> appendHit clip wh ns j then colRms clip ch wh ns j else rm ! j)"
    using res by simp
  ultimately show ?thesis
    using lens fc unfolding a_def ns_def by blast
qed

subsection \<open>The replacement branch\<close>

lemma copyRange_bounds:
  "copyRange oldX0 oldLen numPixels = (cb, ce) \<Longrightarrow> cb \<le> ce \<and> ce \<le> numPixels"
proof -
  assume "copyRange oldX0 oldLen numPixels = (cb, ce)"
  then have cb: "cb = min numPixels (nat (max 0 (- oldX0)))"
    and ce: "ce = min numPixels (nat (max 0 (int oldLen - oldX0)))"
    by (simp_all add: copyRange_def)
  have "nat (max 0 (- oldX0)) \<le> nat (max 0 (int oldLen - oldX0))" by linarith
  then show ?thesis unfolding cb ce by auto
qed

lemma prepare_copy_bounds:
  "p_copyBegin (prepare ext wc d m n t0 z r spp) \<le> p_copyEnd (prepare ext wc d m n t0 z r spp) \<and>
   p_copyEnd (prepare ext wc d m n t0 z r spp) \<le> n"
proof -
  obtain cb ce where cr: "(p_copyBegin (prepare ext wc d m n t0 z r spp),
      p_copyEnd (prepare ext wc d m n t0 z r spp)) = (cb, ce)" by simp
  have "(cb, ce) = (0, 0) \<or> (\<exists>x l. copyRange x l n = (cb, ce))"
    using cr by (auto simp: prepare_def Let_def split: option.splits prod.splits if_splits)
  then show ?thesis using cr copyRange_bounds by auto
qed

lemma prepare_range:
  "(p_p0 (prepare ext wc d m n t0 z r spp), p_p1 (prepare ext wc d m n t0 z r spp)) =
     recomputeRange (p_copyBegin (prepare ext wc d m n t0 z r spp))
       (p_copyEnd (prepare ext wc d m n t0 z r spp)) n"
  by (simp add: prepare_def Let_def split: option.splits prod.splits)

lemma prepare_oldCache:
  "(p_oldCache (prepare ext wc d m n t0 z r spp) \<noteq> None) =
     (p_copyBegin (prepare ext wc d m n t0 z r spp) < p_copyEnd (prepare ext wc d m n t0 z r spp))"
  by (auto simp: prepare_def Let_def split: option.splits prod.splits)

section \<open>The claims\<close>

text \<open>
  C7. The recompute range of the replacement branch. With the copy range
  \<open>[copyBegin, copyEnd)\<close> inside \<open>[0, numPixels)\<close>, the pixels \<open>[p0, p1)\<close> to recompute
  are \<open>[copyEnd, numPixels)\<close> when a copy starts at pixel 0, \<open>[0, copyBegin)\<close> when a
  copy ends at \<open>numPixels\<close>, and all of \<open>[0, numPixels)\<close> otherwise: when there is no copy
  or when the copy touches neither edge.
\<close>

theorem recompute_range_rule:
  fixes ext wc d m n t0 z r spp
  defines "p \<equiv> prepare ext wc d m n t0 z r spp"
  shows "p_copyBegin p \<le> p_copyEnd p \<and> p_copyEnd p \<le> n \<and>
         (p_p0 p, p_p1 p) = recomputeRange (p_copyBegin p) (p_copyEnd p) n \<and>
         {p_p0 p..<p_p1 p} =
           (if p_copyBegin p < p_copyEnd p
            then (if p_copyBegin p = 0 then {p_copyEnd p..<n}
                  else if p_copyEnd p = n then {0..<p_copyBegin p}
                  else {0..<n})
            else {0..<n})"
proof -
  have b: "p_copyBegin p \<le> p_copyEnd p" "p_copyEnd p \<le> n"
    using prepare_copy_bounds[of ext wc d m n t0 z r spp] by (simp_all add: p_def)
  have r: "(p_p0 p, p_p1 p) = recomputeRange (p_copyBegin p) (p_copyEnd p) n"
    unfolding p_def by (rule prepare_range)
  then have p0: "p_p0 p = (if 0 < p_copyBegin p then 0 else p_copyEnd p)"
    and p1: "p_p1 p = (if n \<le> p_copyEnd p then p_copyBegin p else n)"
    by (simp_all add: recomputeRange_def)
  have "{p_p0 p..<p_p1 p} =
           (if p_copyBegin p < p_copyEnd p
            then (if p_copyBegin p = 0 then {p_copyEnd p..<n}
                  else if p_copyEnd p = n then {0..<p_copyBegin p}
                  else {0..<n})
            else {0..<n})"
    using b unfolding p0 p1 by auto
  with b r show ?thesis by simp
qed

theorem recompute_range_rule_witness:
  "p_copyBegin (prepare (exampleExt (- 1) [0, 1, 2, 3, 4] True 7)
      (Some (WaveCache_new 2 (Fin 1) (Fin 10) (Fin 0) 0)) 0 True 4 (Fin 1) (Fin 1) (Fin 10) (Fin 10)) = 1 \<and>
   p_copyEnd (prepare (exampleExt (- 1) [0, 1, 2, 3, 4] True 7)
      (Some (WaveCache_new 2 (Fin 1) (Fin 10) (Fin 0) 0)) 0 True 4 (Fin 1) (Fin 1) (Fin 10) (Fin 10)) = 3 \<and>
   {p_p0 (prepare (exampleExt (- 1) [0, 1, 2, 3, 4] True 7)
      (Some (WaveCache_new 2 (Fin 1) (Fin 10) (Fin 0) 0)) 0 True 4 (Fin 1) (Fin 1) (Fin 10) (Fin 10))
    ..< p_p1 (prepare (exampleExt (- 1) [0, 1, 2, 3, 4] True 7)
      (Some (WaveCache_new 2 (Fin 1) (Fin 10) (Fin 0) 0)) 0 True 4 (Fin 1) (Fin 1) (Fin 10) (Fin 10))}
     = {0..<4}"
  using recompute_range_rule
    [of "exampleExt (- 1) [0, 1, 2, 3, 4] True 7"
        "Some (WaveCache_new 2 (Fin 1) (Fin 10) (Fin 0) 0)" 0 True 4 "Fin 1" "Fin 1" "Fin 10" "Fin 10"]
  by (simp add: prepare_def exampleExt_def WaveCache_new_def copyRange_def recomputeRange_def
        Let_def)

lemma GetWaveDisplay_exact:
  assumes "where_d disp = None"
      and "mWaveCaches this ! channel = Some c"
      and "exactHit (Some c) (ddiv (Fin 1) z) (width disp) (GetRate clip) (mDirty this)
             (dadd t0 (GetTrimLeft clip))"
  shows "GetWaveDisplay ext clip this channel disp t0 z =
     \<lparr>ok = True,
      display = disp\<lparr>where_d := Some (where_c c), min_d := min_c c, max_d := max_c c,
                     rms_d := rms_c c\<rparr>,
      cache = this, seqCalls = []\<rparr>"
  using assms by (simp add: GetWaveDisplay_def Let_def)

text \<open>The outcome of the branch that replaces the entry, in one expression.\<close>

lemma GetWaveDisplay_replace:
  assumes "where_d disp = None"
      and "\<not> exactHit (mWaveCaches this ! channel) (ddiv (Fin 1) z) (width disp) (GetRate clip)
               (mDirty this) (dadd t0 (GetTrimLeft clip))"
  shows "GetWaveDisplay ext clip this channel disp t0 z =
     (let p = prepare ext (mWaveCaches this ! channel) (mDirty this)
                (cacheMatch (mWaveCaches this ! channel) (ddiv (Fin 1) z) (width disp)
                   (GetRate clip) (mDirty this))
                (width disp) (dadd t0 (GetTrimLeft clip)) z (GetRate clip)
                (dmul (GetRate clip) (ddiv (Fin 1) z));
          f = fillColumns ext clip channel (p_min p) (p_max p) (p_rms p) (p_where p) (p_p0 p)
                (p_p1 p)
      in \<lparr>ok = f_ok f,
          display =
            (if f_ok f
             then disp\<lparr>where_d := Some (p_where p), min_d := f_min f, max_d := f_max f,
                       rms_d := f_rms f\<rparr>
             else disp),
          cache = this\<lparr>mWaveCaches := (mWaveCaches this)
            [channel := Some ((WaveCache_new (width disp) z (GetRate clip)
                 (dadd t0 (GetTrimLeft clip)) (mDirty this))
               \<lparr>where_c := p_where p, min_c := f_min f, max_c := f_max f, rms_c := f_rms f\<rparr>)]\<rparr>,
          seqCalls = f_calls f\<rparr>)"
  using assms by (simp add: GetWaveDisplay_def Let_def)


text \<open>
  C2. Exact-hit idempotence. A request without buffers of its own finds an entry for its
  channel that passes the zoom test, has a positive length and the current value of
  \<^verbatim>\<open>mDirty\<close>, starts at the requested time and is at least as long as the request. Then
  the call returns true with the arrays of the entry, leaves the cache object as it was
  and never calls the sequence's summarizer; and the same request, repeated on the
  cache object the call left, has the same outcome.
\<close>

theorem exact_hit_idempotent:
  assumes "where_d disp = None"
      and "mWaveCaches this ! channel = Some c"
      and "ppsMatch (Some c) (ddiv (Fin 1) pixelsPerSecond) (width disp) (GetRate clip)"
      and "0 < len c"
      and "dirty c = mDirty this"
      and "deq (start c) (dadd t0 (GetTrimLeft clip))"
      and "width disp \<le> len c"
  shows "GetWaveDisplay ext clip this channel disp t0 pixelsPerSecond =
           \<lparr>ok = True,
            display = disp\<lparr>where_d := Some (where_c c), min_d := min_c c, max_d := max_c c,
                           rms_d := rms_c c\<rparr>,
            cache = this, seqCalls = []\<rparr> \<and>
         GetWaveDisplay ext clip
             (cache (GetWaveDisplay ext clip this channel disp t0 pixelsPerSecond))
             channel disp t0 pixelsPerSecond =
           GetWaveDisplay ext clip this channel disp t0 pixelsPerSecond"
proof -
  have hit: "exactHit (Some c) (ddiv (Fin 1) pixelsPerSecond) (width disp) (GetRate clip)
               (mDirty this) (dadd t0 (GetTrimLeft clip))"
    using assms(3-7) by (simp add: exactHit_def cacheMatch_def)
  note first = GetWaveDisplay_exact[OF assms(1,2) hit, of ext]
  show ?thesis unfolding first by simp (rule first)
qed

lemma recomputeRange_no_copy: "recomputeRange 0 0 n = (0, n)"
  by (simp add: recomputeRange_def)

lemma prepare_no_match:
  "prepare ext wc d False n t0 z r spp =
     \<lparr>p_oldX0 = 0, p_correction = Fin 0, p_copyBegin = 0, p_copyEnd = 0, p_oldCache = None,
      p_min = replicate n 0, p_max = replicate n 0, p_rms = replicate n 0,
      p_where = fillWhere ext (replicate (1 + n) 0) n (Fin 0) (Fin 0) t0 r spp,
      p_p0 = 0, p_p1 = n\<rparr>"
  by (cases wc) (simp_all add: prepare_def Let_def recomputeRange_no_copy WaveCache_new_def)

lemma cacheMatch_default [simp]: "\<not> cacheMatch (Some WaveCache_default) tstep n r d"
  by (simp add: cacheMatch_def WaveCache_default_def)

lemma exactHit_cacheMatch: "exactHit wc tstep n r d t0 \<Longrightarrow> cacheMatch wc tstep n r d"
  by (simp add: exactHit_def split: option.splits)

lemma cacheMatch_MarkChanged:
  "cacheMatch wc tstep n r d \<Longrightarrow> \<not> cacheMatch wc tstep n r (d + 1)"
  by (auto simp: cacheMatch_def split: option.splits)

text \<open>
  A request that does not match the entry is answered without the entry: the outcome is
  the one a default entry in its place gives.
\<close>

lemma GetWaveDisplay_no_match:
  assumes "where_d disp = None"
      and "channel < length (mWaveCaches this)"
      and "\<not> cacheMatch (mWaveCaches this ! channel) (ddiv (Fin 1) z) (width disp) (GetRate clip)
               (mDirty this)"
  shows "GetWaveDisplay ext clip this channel disp t0 z =
         GetWaveDisplay ext clip
           (this\<lparr>mWaveCaches := (mWaveCaches this)[channel := Some WaveCache_default]\<rparr>)
           channel disp t0 z"
proof -
  let ?that = "this\<lparr>mWaveCaches := (mWaveCaches this)[channel := Some WaveCache_default]\<rparr>"
  have nh: "\<not> exactHit (mWaveCaches this ! channel) (ddiv (Fin 1) z) (width disp) (GetRate clip)
               (mDirty this) (dadd t0 (GetTrimLeft clip))"
    using assms(3) exactHit_cacheMatch by blast
  have at: "mWaveCaches ?that ! channel = Some WaveCache_default"
    using assms(2) by simp
  have nh': "\<not> exactHit (mWaveCaches ?that ! channel) (ddiv (Fin 1) z) (width disp) (GetRate clip)
               (mDirty ?that) (dadd t0 (GetTrimLeft clip))"
    unfolding at using exactHit_cacheMatch cacheMatch_default by blast
  have d: "where_d disp = None" by (rule assms(1))
  show ?thesis
    unfolding GetWaveDisplay_replace[OF d nh] GetWaveDisplay_replace[OF d nh'] at
    using assms(3) by (simp add: prepare_no_match Let_def)
qed

text \<open>
  C8. Generation invalidation. \<^verbatim>\<open>MarkChanged\<close> adds one to \<^verbatim>\<open>mDirty\<close> and leaves every
  entry as it was. A request that was an exact hit before \<^verbatim>\<open>MarkChanged\<close> is none after
  it, and does not even match the entry: it is answered exactly as if the channel held a
  default entry, and the entry it installs carries the new value of \<^verbatim>\<open>mDirty\<close>.
\<close>

theorem markChanged_invalidates:
  assumes "where_d disp = None"
      and "channel < length (mWaveCaches this)"
      and "exactHit (mWaveCaches this ! channel) (ddiv (Fin 1) pixelsPerSecond) (width disp)
             (GetRate clip) (mDirty this) (dadd t0 (GetTrimLeft clip))"
  shows "mDirty (MarkChanged this) = mDirty this + 1 \<and>
         mWaveCaches (MarkChanged this) = mWaveCaches this \<and>
         \<not> exactHit (mWaveCaches (MarkChanged this) ! channel) (ddiv (Fin 1) pixelsPerSecond)
             (width disp) (GetRate clip) (mDirty (MarkChanged this)) (dadd t0 (GetTrimLeft clip)) \<and>
         \<not> cacheMatch (mWaveCaches (MarkChanged this) ! channel) (ddiv (Fin 1) pixelsPerSecond)
             (width disp) (GetRate clip) (mDirty (MarkChanged this)) \<and>
         GetWaveDisplay ext clip (MarkChanged this) channel disp t0 pixelsPerSecond =
           GetWaveDisplay ext clip
             ((MarkChanged this)
                \<lparr>mWaveCaches := (mWaveCaches this)[channel := Some WaveCache_default]\<rparr>)
             channel disp t0 pixelsPerSecond \<and>
         (\<exists>e. mWaveCaches
                (cache (GetWaveDisplay ext clip (MarkChanged this) channel disp t0
                   pixelsPerSecond)) ! channel = Some e \<and>
              dirty e = mDirty this + 1 \<and> len e = width disp)"
proof -
  let ?m = "MarkChanged this"
  have m1: "mDirty ?m = mDirty this + 1" and m2: "mWaveCaches ?m = mWaveCaches this"
    by (simp_all add: MarkChanged_def)
  have cm: "cacheMatch (mWaveCaches this ! channel) (ddiv (Fin 1) pixelsPerSecond) (width disp)
             (GetRate clip) (mDirty this)"
    using assms(3) by (rule exactHit_cacheMatch)
  have ncm: "\<not> cacheMatch (mWaveCaches ?m ! channel) (ddiv (Fin 1) pixelsPerSecond)
             (width disp) (GetRate clip) (mDirty ?m)"
    unfolding m1 m2 using cm by (rule cacheMatch_MarkChanged)
  then have nh: "\<not> exactHit (mWaveCaches ?m ! channel) (ddiv (Fin 1) pixelsPerSecond)
             (width disp) (GetRate clip) (mDirty ?m) (dadd t0 (GetTrimLeft clip))"
    using exactHit_cacheMatch by blast
  have lm: "channel < length (mWaveCaches ?m)" using assms(2) m2 by simp
  have scratch: "GetWaveDisplay ext clip ?m channel disp t0 pixelsPerSecond =
           GetWaveDisplay ext clip
             (?m\<lparr>mWaveCaches := (mWaveCaches this)[channel := Some WaveCache_default]\<rparr>)
             channel disp t0 pixelsPerSecond"
    using GetWaveDisplay_no_match[OF assms(1) lm ncm, of ext t0] by (simp add: m2)
  have entry: "\<exists>e. mWaveCaches
                (cache (GetWaveDisplay ext clip ?m channel disp t0 pixelsPerSecond)) ! channel
                  = Some e \<and> dirty e = mDirty this + 1 \<and> len e = width disp"
    unfolding GetWaveDisplay_replace[OF assms(1) nh] Let_def
    using lm by (simp add: m1 WaveCache_new_def)
  from m1 m2 nh ncm scratch entry show ?thesis by blast
qed




lemmas example_defs =
  exampleExt_def exampleClip_def exampleDisplay_def WaveClipWaveformCache_new_def
  WaveCache_default_def WaveCache_new_def

lemmas model_defs =
  GetWaveDisplay_def exactHit_def cacheMatch_def ppsMatch_def prepare_def fillColumns_def
  copyRange_def recomputeRange_def memcpy_floats_def writeColumns_def appendColumn_def
  summarizeSamples_def dsub_def deq_def dinf_def Let_def

lemma exampleCache_eq: "exampleCache = \<lparr>mWaveCaches = [Some exampleEntry], mDirty = 0\<rparr>"
  by (simp add: exampleCache_def exampleEntry_def example_defs model_defs upt_rec)

theorem exact_hit_idempotent_witness:
  "where_d (exampleDisplay 2) = None \<and>
   mWaveCaches exampleCache ! 0 = Some exampleEntry \<and>
   ppsMatch (Some exampleEntry) (ddiv (Fin 1) (Fin 1)) (width (exampleDisplay 2))
     (GetRate (exampleClip 100 [])) \<and>
   0 < len exampleEntry \<and> dirty exampleEntry = mDirty exampleCache \<and>
   deq (start exampleEntry) (dadd (Fin 0) (GetTrimLeft (exampleClip 100 []))) \<and>
   width (exampleDisplay 2) \<le> len exampleEntry \<and>
   GetWaveDisplay (exampleExt 0 [0, 10, 20] True 9) (exampleClip 100 []) exampleCache 0
       (exampleDisplay 2) (Fin 0) (Fin 1) =
     \<lparr>ok = True,
      display = \<lparr>width = 2, where_d = Some [0, 10, 20], min_d = [7, 7], max_d = [7, 7],
                 rms_d = [7, 7], ownWhere = []\<rparr>,
      cache = exampleCache, seqCalls = []\<rparr>"
proof -
  have h: "where_d (exampleDisplay 2) = None"
    "mWaveCaches exampleCache ! 0 = Some exampleEntry"
    "ppsMatch (Some exampleEntry) (ddiv (Fin 1) (Fin 1)) (width (exampleDisplay 2))
       (GetRate (exampleClip 100 []))"
    "0 < len exampleEntry" "dirty exampleEntry = mDirty exampleCache"
    "deq (start exampleEntry) (dadd (Fin 0) (GetTrimLeft (exampleClip 100 [])))"
    "width (exampleDisplay 2) \<le> len exampleEntry"
    by (simp_all add: exampleCache_eq exampleEntry_def example_defs ppsMatch_def dsub_def deq_def)
  from exact_hit_idempotent[OF h, of "exampleExt 0 [0, 10, 20] True 9"] h
  show ?thesis by (simp add: exampleEntry_def exampleDisplay_def)
qed

lemma exampleCache_hit:
  "exactHit (mWaveCaches exampleCache ! 0) (ddiv (Fin 1) (Fin 1)) (width (exampleDisplay 2))
     (GetRate (exampleClip 100 [])) (mDirty exampleCache)
     (dadd (Fin 0) (GetTrimLeft (exampleClip 100 [])))"
  by (simp add: exampleCache_eq exampleEntry_def example_defs exactHit_def cacheMatch_def
        ppsMatch_def dsub_def deq_def)

theorem markChanged_invalidates_witness:
  "where_d (exampleDisplay 2) = None \<and> 0 < length (mWaveCaches exampleCache) \<and>
   exactHit (mWaveCaches exampleCache ! 0) (ddiv (Fin 1) (Fin 1)) (width (exampleDisplay 2))
     (GetRate (exampleClip 100 [])) (mDirty exampleCache)
     (dadd (Fin 0) (GetTrimLeft (exampleClip 100 []))) \<and>
   mDirty (MarkChanged exampleCache) = 1 \<and>
   mWaveCaches (MarkChanged exampleCache) = [Some exampleEntry] \<and>
   GetWaveDisplay (exampleExt 0 [0, 10, 20] True 9) (exampleClip 100 [])
       (MarkChanged exampleCache) 0 (exampleDisplay 2) (Fin 0) (Fin 1) =
     \<lparr>ok = True,
      display = \<lparr>width = 2, where_d = Some [0, 10, 20], min_d = [9, 9], max_d = [9, 9],
                 rms_d = [9, 9], ownWhere = []\<rparr>,
      cache = \<lparr>mWaveCaches = [Some (exampleEntry\<lparr>dirty := 1, min_c := [9, 9],
                 max_c := [9, 9], rms_c := [9, 9]\<rparr>)], mDirty = 1\<rparr>,
      seqCalls = [(0, 2)]\<rparr>"
proof -
  have h: "where_d (exampleDisplay 2) = None" "0 < length (mWaveCaches exampleCache)"
    by (simp_all add: exampleCache_eq exampleDisplay_def)
  have m: "(MarkChanged exampleCache)
             \<lparr>mWaveCaches := (mWaveCaches exampleCache)[0 := Some WaveCache_default]\<rparr> =
           \<lparr>mWaveCaches = [Some WaveCache_default], mDirty = 1\<rparr>"
    by (simp add: exampleCache_eq MarkChanged_def)
  have r: "GetWaveDisplay (exampleExt 0 [0, 10, 20] True 9) (exampleClip 100 [])
       \<lparr>mWaveCaches = [Some WaveCache_default], mDirty = 1\<rparr> 0 (exampleDisplay 2) (Fin 0) (Fin 1) =
     \<lparr>ok = True,
      display = \<lparr>width = 2, where_d = Some [0, 10, 20], min_d = [9, 9], max_d = [9, 9],
                 rms_d = [9, 9], ownWhere = []\<rparr>,
      cache = \<lparr>mWaveCaches = [Some (exampleEntry\<lparr>dirty := 1, min_c := [9, 9],
                 max_c := [9, 9], rms_c := [9, 9]\<rparr>)], mDirty = 1\<rparr>,
      seqCalls = [(0, 2)]\<rparr>"
    by (simp add: exampleEntry_def example_defs model_defs upt_rec)
  from markChanged_invalidates[OF h exampleCache_hit, of "exampleExt 0 [0, 10, 20] True 9"]
  show ?thesis using h exampleCache_hit unfolding m r
    by (simp add: exampleCache_eq)
qed









lemma fillColumns_frame:
  assumes "\<not> (p0 \<le> i \<and> i < p1)"
      and "i < length mn" "i < length mx" "i < length rm"
  shows "f_min (fillColumns ext clip ch mn mx rm wh p0 p1) ! i = mn ! i \<and>
         f_max (fillColumns ext clip ch mn mx rm wh p0 p1) ! i = mx ! i \<and>
         f_rms (fillColumns ext clip ch mn mx rm wh p0 p1) ! i = rm ! i"
proof (cases "p0 < p1")
  case False
  then show ?thesis by (simp add: fillColumns_def)
next
  case True
  define ns where "ns = GetNumSamples clip ch"
  define a where "a = firstAppendColumn wh ns [p0..<p1] p1"
  have ab: "p0 \<le> a" "a \<le> p1"
    using firstAppendColumn_upt_bounds[of p0 p1 wh ns] True by (simp_all add: a_def)
  obtain mn1 mx1 rm1 d1 where
    ac: "(if a < p1 then appendColumns clip ch wh ns [a..<p1] (mn, mx, rm, False)
          else (mn, mx, rm, False)) = (mn1, mx1, rm1, d1)"
    by (metis prod_cases4)
  have out: "i \<notin> set [a..<p1]" using assms(1) ab by auto
  have lens: "length mn1 = length mn \<and> length mx1 = length mx \<and> length rm1 = length rm"
    using ac appendColumns_length[of clip ch wh ns "[a..<p1]" mn mx rm False mn1 mx1 rm1 d1]
    by (auto split: if_splits)
  have same: "mn1 ! i = mn ! i \<and> mx1 ! i = mx ! i \<and> rm1 ! i = rm ! i"
    using ac appendColumns_other[of clip ch wh ns "[a..<p1]" mn mx rm False mn1 mx1 rm1 d1 i] out
    by (auto split: if_splits)
  have in1: "i < length mn1" "i < length mx1" "i < length rm1"
    using lens assms(2,3,4) by simp_all
  have w: "writeColumns xs p0 (e - p0) ys ! i = xs ! i" if "i < length xs" "e \<le> p1" for xs ys e
    using that assms(1) by (auto simp: nth_writeColumns)
  show ?thesis
    unfolding fillColumns_def Let_def ns_def[symmetric] a_def[symmetric] ac
    using True same in1 ab w by (simp split: prod.splits)
qed

lemma fillColumns_calls:
  "(a, b) \<in> set (f_calls (fillColumns ext clip ch mn mx rm wh p0 p1)) \<Longrightarrow>
   a = p0 \<and> p0 < b \<and> b \<le> p1"
proof (cases "p0 < p1")
  case False
  assume "(a, b) \<in> set (f_calls (fillColumns ext clip ch mn mx rm wh p0 p1))"
  with False show ?thesis by (simp add: fillColumns_def)
next
  case True
  assume in_calls: "(a, b) \<in> set (f_calls (fillColumns ext clip ch mn mx rm wh p0 p1))"
  define ns where "ns = GetNumSamples clip ch"
  define a' where "a' = firstAppendColumn wh ns [p0..<p1] p1"
  have ab: "p0 \<le> a'" "a' \<le> p1"
    using firstAppendColumn_upt_bounds[of p0 p1 wh ns] True by (simp_all add: a'_def)
  obtain mn1 mx1 rm1 d1 where
    ac: "(if a' < p1 then appendColumns clip ch wh ns [a'..<p1] (mn, mx, rm, False)
          else (mn, mx, rm, False)) = (mn1, mx1, rm1, d1)"
    by (metis prod_cases4)
  show ?thesis
    using in_calls True ab
    unfolding fillColumns_def Let_def ns_def[symmetric] a'_def[symmetric] ac
    by (auto split: prod.splits if_splits)
qed

lemma fillColumns_empty:
  "\<not> p0 < p1 \<Longrightarrow>
   fillColumns ext clip ch mn mx rm wh p0 p1 =
     \<lparr>f_ok = True, f_min = mn, f_max = mx, f_rms = rm, f_calls = []\<rparr>"
  by (simp add: fillColumns_def)


lemma GetWaveDisplay_miss:
  assumes "where_d disp = None"
      and "\<not> requestHit clip this channel disp t0 z"
  shows "GetWaveDisplay ext clip this channel disp t0 z =
     (let p = requestPrepared ext clip this channel disp t0 z;
          f = fillColumns ext clip channel (p_min p) (p_max p) (p_rms p) (p_where p) (p_p0 p)
                (p_p1 p)
      in \<lparr>ok = f_ok f,
          display =
            (if f_ok f
             then disp\<lparr>where_d := Some (p_where p), min_d := f_min f, max_d := f_max f,
                       rms_d := f_rms f\<rparr>
             else disp),
          cache = this\<lparr>mWaveCaches := (mWaveCaches this)
            [channel := Some ((WaveCache_new (width disp) z (GetRate clip)
                 (dadd t0 (GetTrimLeft clip)) (mDirty this))
               \<lparr>where_c := p_where p, min_c := f_min f, max_c := f_max f, rms_c := f_rms f\<rparr>)]\<rparr>,
          seqCalls = f_calls f\<rparr>)"
  using GetWaveDisplay_replace[OF assms(1) assms(2)[unfolded requestHit_def], of ext]
  by (simp add: requestPrepared_def)

lemma GetWaveDisplay_hit_ok:
  assumes "where_d disp = None"
      and "requestHit clip this channel disp t0 z"
  shows "ok (GetWaveDisplay ext clip this channel disp t0 z) \<and>
         cache (GetWaveDisplay ext clip this channel disp t0 z) = this \<and>
         seqCalls (GetWaveDisplay ext clip this channel disp t0 z) = []"
  using assms
  by (simp add: GetWaveDisplay_def requestHit_def Let_def split: option.splits)

lemma prepare_lengths:
  "length (p_min (prepare ext wc d m n t0 z r spp)) = n \<and>
   length (p_max (prepare ext wc d m n t0 z r spp)) = n \<and>
   length (p_rms (prepare ext wc d m n t0 z r spp)) = n"
  by (simp add: prepare_def Let_def WaveCache_new_def split: option.splits prod.splits)

lemma prepare_p1_le: "p_p1 (prepare ext wc d m n t0 z r spp) \<le> n"
proof -
  have "p_p1 (prepare ext wc d m n t0 z r spp) =
      snd (recomputeRange (p_copyBegin (prepare ext wc d m n t0 z r spp))
       (p_copyEnd (prepare ext wc d m n t0 z r spp)) n)"
    by (metis prepare_range snd_conv)
  then show ?thesis
    using prepare_copy_bounds[of ext wc d m n t0 z r spp] by (simp add: recomputeRange_def)
qed




lemma GetWaveDisplay_hit:
  assumes "where_d disp = None"
      and "requestHit clip this channel disp t0 z"
  shows "\<exists>c. mWaveCaches this ! channel = Some c \<and> width disp \<le> len c \<and>
           GetWaveDisplay ext clip this channel disp t0 z =
             \<lparr>ok = True,
              display = disp\<lparr>where_d := Some (where_c c), min_d := min_c c, max_d := max_c c,
                             rms_d := rms_c c\<rparr>,
              cache = this, seqCalls = []\<rparr>"
proof -
  from assms(2) obtain c where c: "mWaveCaches this ! channel = Some c"
    by (cases "mWaveCaches this ! channel") (simp_all add: requestHit_def exactHit_def)
  have hit: "exactHit (Some c) (ddiv (Fin 1) z) (width disp) (GetRate clip) (mDirty this)
             (dadd t0 (GetTrimLeft clip))"
    using assms(2) c by (simp add: requestHit_def)
  then have "width disp \<le> len c" by (simp add: exactHit_def)
  with c GetWaveDisplay_exact[OF assms(1) c hit, of ext] show ?thesis by blast
qed

text \<open>
  C9, as the code has it. A request of width 0 without buffers of its own returns true
  and never calls the sequence's summarizer. On an exact hit the cache object is
  unchanged. Otherwise the entry of the channel is replaced by a new entry of length 0
  for the requested time and zoom, with empty summary arrays, and the display gets these
  empty arrays.
\<close>

theorem zero_width_request:
  assumes "where_d disp = None"
      and "width disp = 0"
  shows "ok (GetWaveDisplay ext clip this channel disp t0 pixelsPerSecond) \<and>
         seqCalls (GetWaveDisplay ext clip this channel disp t0 pixelsPerSecond) = [] \<and>
         mDirty (cache (GetWaveDisplay ext clip this channel disp t0 pixelsPerSecond)) =
           mDirty this \<and>
         (if requestHit clip this channel disp t0 pixelsPerSecond
          then cache (GetWaveDisplay ext clip this channel disp t0 pixelsPerSecond) = this
          else cache (GetWaveDisplay ext clip this channel disp t0 pixelsPerSecond) =
                 this\<lparr>mWaveCaches := (mWaveCaches this)
                   [channel := Some
                      \<lparr>dirty = mDirty this, len = 0,
                       start = dadd t0 (GetTrimLeft clip), pps = pixelsPerSecond,
                       rate = double_to_int (GetRate clip),
                       where_c = p_where (requestPrepared ext clip this channel disp t0
                                            pixelsPerSecond),
                       min_c = [], max_c = [], rms_c = []\<rparr>]\<rparr> \<and>
               display (GetWaveDisplay ext clip this channel disp t0 pixelsPerSecond) =
                 disp\<lparr>where_d := Some (p_where (requestPrepared ext clip this channel disp t0
                                                   pixelsPerSecond)),
                      min_d := [], max_d := [], rms_d := []\<rparr>)"
proof (cases "requestHit clip this channel disp t0 pixelsPerSecond")
  case True
  from GetWaveDisplay_hit_ok[OF assms(1) True, of ext] True show ?thesis by simp
next
  case False
  define p where "p = requestPrepared ext clip this channel disp t0 pixelsPerSecond"
  have p1: "p_p1 p = 0"
    using prepare_p1_le[of ext _ _ _ 0] assms(2) unfolding p_def requestPrepared_def by simp
  have lens: "p_min p = []" "p_max p = []" "p_rms p = []"
    using prepare_lengths[of ext _ _ _ 0] assms(2) unfolding p_def requestPrepared_def
    by simp_all
  have f: "fillColumns ext clip channel (p_min p) (p_max p) (p_rms p) (p_where p) (p_p0 p) (p_p1 p) =
      \<lparr>f_ok = True, f_min = [], f_max = [], f_rms = [], f_calls = []\<rparr>"
    using fillColumns_empty[of "p_p0 p" "p_p1 p"] p1 lens by simp
  note r = GetWaveDisplay_miss[OF assms(1) False, of ext, unfolded Let_def, folded p_def,
      unfolded f]
  show ?thesis
    using False unfolding r p_def[symmetric] by (simp add: WaveCache_new_def assms(2))
qed

text \<open>
  C9 as stated fails: the cache holds a two-pixel entry at time 0; a request of width 0
  at time 5 replaces it with an entry of length 0.
\<close>

theorem zero_width_keeps_entry_counterexample:
  "where_d (exampleDisplay 0) = None \<and> width (exampleDisplay 0) = 0 \<and>
   mWaveCaches exampleCache ! 0 = Some exampleEntry \<and>
   ok (GetWaveDisplay (exampleExt 5 [50] True 9) (exampleClip 100 []) exampleCache 0
         (exampleDisplay 0) (Fin 5) (Fin 1)) \<and>
   mWaveCaches (cache (GetWaveDisplay (exampleExt 5 [50] True 9) (exampleClip 100 [])
       exampleCache 0 (exampleDisplay 0) (Fin 5) (Fin 1))) ! 0 =
     Some \<lparr>dirty = 0, len = 0, start = Fin 5, pps = Fin 1, rate = 10,
           where_c = [50], min_c = [], max_c = [], rms_c = []\<rparr> \<and>
   mWaveCaches (cache (GetWaveDisplay (exampleExt 5 [50] True 9) (exampleClip 100 [])
       exampleCache 0 (exampleDisplay 0) (Fin 5) (Fin 1))) ! 0 \<noteq>
     mWaveCaches exampleCache ! 0"
  by (simp add: exampleCache_eq exampleEntry_def example_defs model_defs upt_rec)

theorem zero_width_request_witness:
  "where_d (exampleDisplay 0) = None \<and> width (exampleDisplay 0) = 0 \<and>
   \<not> requestHit (exampleClip 100 []) exampleCache 0 (exampleDisplay 0) (Fin 5) (Fin 1) \<and>
   requestHit (exampleClip 100 []) exampleCache 0 (exampleDisplay 0) (Fin 0) (Fin 1) \<and>
   ok (GetWaveDisplay (exampleExt 5 [50] True 9) (exampleClip 100 []) exampleCache 0
         (exampleDisplay 0) (Fin 5) (Fin 1)) \<and>
   seqCalls (GetWaveDisplay (exampleExt 5 [50] True 9) (exampleClip 100 []) exampleCache 0
         (exampleDisplay 0) (Fin 5) (Fin 1)) = [] \<and>
   cache (GetWaveDisplay (exampleExt 5 [50] True 9) (exampleClip 100 []) exampleCache 0
         (exampleDisplay 0) (Fin 0) (Fin 1)) = exampleCache"
proof -
  have h: "where_d (exampleDisplay 0) = None" "width (exampleDisplay 0) = 0"
    by (simp_all add: exampleDisplay_def)
  have m: "\<not> requestHit (exampleClip 100 []) exampleCache 0 (exampleDisplay 0) (Fin 5) (Fin 1)"
    "requestHit (exampleClip 100 []) exampleCache 0 (exampleDisplay 0) (Fin 0) (Fin 1)"
    by (simp_all add: requestHit_def exampleCache_eq exampleEntry_def example_defs exactHit_def
          cacheMatch_def ppsMatch_def dsub_def deq_def)
  from zero_width_request[OF h, of "exampleExt 5 [50] True 9" "exampleClip 100 []" exampleCache 0
         "Fin 5" "Fin 1"]
       zero_width_request[OF h, of "exampleExt 5 [50] True 9" "exampleClip 100 []" exampleCache 0
         "Fin 0" "Fin 1"]
       h m
  show ?thesis by simp
qed

lemma copyRange_set:
  assumes "copyRange oldX0 oldLen n = (cb, ce)"
  shows "{cb..<ce} = {j. j < n \<and> 0 \<le> int j + oldX0 \<and> int j + oldX0 < int oldLen}"
proof -
  from assms have cb: "cb = min n (nat (max 0 (- oldX0)))"
    and ce: "ce = min n (nat (max 0 (int oldLen - oldX0)))"
    by (simp_all add: copyRange_def)
  show ?thesis unfolding cb ce by auto
qed

lemma recomputeRange_edge:
  assumes "recomputeRange cb ce n = (p0, p1)"
      and "cb = 0 \<or> ce = n" "cb \<le> i" "i < ce"
  shows "\<not> (p0 \<le> i \<and> i < p1)"
  using assms by (auto simp: recomputeRange_def split: if_splits)

lemma prepare_copied:
  assumes "findCorrection ext (where_c c) (len c) n t0 r spp = (oldX0, correction)"
      and "copyRange oldX0 (len c) n = (cb, ce)"
      and "cb \<le> i" "i < ce"
  shows "p_min (prepare ext (Some c) d True n t0 z r spp) ! i = min_c c ! nat (int i + oldX0) \<and>
         p_max (prepare ext (Some c) d True n t0 z r spp) ! i = max_c c ! nat (int i + oldX0) \<and>
         p_rms (prepare ext (Some c) d True n t0 z r spp) ! i = rms_c c ! nat (int i + oldX0)"
proof -
  have lt: "cb < ce" using assms(3,4) by simp
  have "ce \<le> n" using copyRange_bounds[OF assms(2)] by simp
  then have i: "i < n" using assms(4) by simp
  have idx: "int cb + oldX0 + int (i - cb) = int i + oldX0" using assms(3) by simp
  show ?thesis
    using assms(1,2) lt i assms(3,4)
    by (simp add: prepare_def Let_def WaveCache_new_def nth_memcpy_floats add.commute
          split: prod.splits)
qed

lemma prepare_matched_fields:
  assumes "findCorrection ext (where_c c) (len c) n t0 r spp = (oldX0, correction)"
      and "copyRange oldX0 (len c) n = (cb, ce)"
  shows "p_oldX0 (prepare ext (Some c) d True n t0 z r spp) = oldX0 \<and>
         p_correction (prepare ext (Some c) d True n t0 z r spp) = correction \<and>
         p_copyBegin (prepare ext (Some c) d True n t0 z r spp) = cb \<and>
         p_copyEnd (prepare ext (Some c) d True n t0 z r spp) = ce \<and>
         (p_p0 (prepare ext (Some c) d True n t0 z r spp),
          p_p1 (prepare ext (Some c) d True n t0 z r spp)) = recomputeRange cb ce n"
  using assms by (simp add: prepare_def Let_def split: prod.splits)

text \<open>
  C3, as the code has it. An entry that matches the request but is no exact hit is mapped
  onto the request by \<^verbatim>\<open>findCorrection\<close>, which answers \<^verbatim>\<open>oldX0\<close>. The copy range
  \<open>[copyBegin, copyEnd)\<close> is the set of pixels of the request that have a pixel of the
  old entry under them. When it starts at pixel 0 or ends at the requested width, every
  pixel \<open>i\<close> of it is outside the recompute range: the new entry (and the display, when
  the call returns true) holds the old entry's min, max and rms of pixel \<open>i + oldX0\<close>
  there, whatever the append buffer and the sequence hold, and no call of the sequence's
  summarizer covers it. For an old entry as long as the request and \<open>0 < oldX0\<close>, the
  pixels \<open>[0, width - oldX0)\<close> are copied and \<open>[width - oldX0, width)\<close> recomputed.
\<close>

theorem reuse_copies_edge_overlap:
  assumes "where_d disp = None"
      and "channel < length (mWaveCaches this)"
      and "mWaveCaches this ! channel = Some c"
      and "cacheMatch (Some c) (ddiv (Fin 1) pixelsPerSecond) (width disp) (GetRate clip)
             (mDirty this)"
      and "\<not> requestHit clip this channel disp t0 pixelsPerSecond"
      and "findCorrection ext (where_c c) (len c) (width disp) (dadd t0 (GetTrimLeft clip))
             (GetRate clip) (dmul (GetRate clip) (ddiv (Fin 1) pixelsPerSecond)) =
           (oldX0, correction)"
      and "copyRange oldX0 (len c) (width disp) = (copyBegin, copyEnd)"
      and "copyBegin = 0 \<or> copyEnd = width disp"
      and "copyBegin \<le> i" and "i < copyEnd"
  shows "{copyBegin..<copyEnd} =
           {j. j < width disp \<and> 0 \<le> int j + oldX0 \<and> int j + oldX0 < int (len c)} \<and>
         (p_p0 (requestPrepared ext clip this channel disp t0 pixelsPerSecond),
          p_p1 (requestPrepared ext clip this channel disp t0 pixelsPerSecond)) =
           recomputeRange copyBegin copyEnd (width disp) \<and>
         \<not> (p_p0 (requestPrepared ext clip this channel disp t0 pixelsPerSecond) \<le> i \<and>
            i < p_p1 (requestPrepared ext clip this channel disp t0 pixelsPerSecond)) \<and>
         (\<forall>(a, b) \<in> set (seqCalls (GetWaveDisplay ext clip this channel disp t0
                                       pixelsPerSecond)).
            \<not> (a \<le> i \<and> i < b)) \<and>
         (\<exists>e. mWaveCaches (cache (GetWaveDisplay ext clip this channel disp t0
                                     pixelsPerSecond)) ! channel = Some e \<and>
              min_c e ! i = min_c c ! nat (int i + oldX0) \<and>
              max_c e ! i = max_c c ! nat (int i + oldX0) \<and>
              rms_c e ! i = rms_c c ! nat (int i + oldX0)) \<and>
         (ok (GetWaveDisplay ext clip this channel disp t0 pixelsPerSecond) \<longrightarrow>
            min_d (display (GetWaveDisplay ext clip this channel disp t0 pixelsPerSecond)) ! i =
              min_c c ! nat (int i + oldX0) \<and>
            max_d (display (GetWaveDisplay ext clip this channel disp t0 pixelsPerSecond)) ! i =
              max_c c ! nat (int i + oldX0) \<and>
            rms_d (display (GetWaveDisplay ext clip this channel disp t0 pixelsPerSecond)) ! i =
              rms_c c ! nat (int i + oldX0)) \<and>
         (len c = width disp \<and> 0 < oldX0 \<longrightarrow>
            copyBegin = 0 \<and> copyEnd = width disp - nat oldX0 \<and>
            recomputeRange copyBegin copyEnd (width disp) =
              (width disp - nat oldX0, width disp))"
proof -
  define n where "n = width disp"
  define p where "p = requestPrepared ext clip this channel disp t0 pixelsPerSecond"
  define f where "f = fillColumns ext clip channel (p_min p) (p_max p) (p_rms p) (p_where p)
                        (p_p0 p) (p_p1 p)"
  have p_eq: "p = prepare ext (Some c) (mDirty this) True n (dadd t0 (GetTrimLeft clip))
      pixelsPerSecond (GetRate clip) (dmul (GetRate clip) (ddiv (Fin 1) pixelsPerSecond))"
    using assms(3,4) by (simp add: p_def requestPrepared_def n_def)
  note fc = assms(6)[folded n_def] and cr = assms(7)[folded n_def]
  have s: "{copyBegin..<copyEnd} =
           {j. j < n \<and> 0 \<le> int j + oldX0 \<and> int j + oldX0 < int (len c)}"
    using cr by (rule copyRange_set)
  have rr: "(p_p0 p, p_p1 p) = recomputeRange copyBegin copyEnd n"
    unfolding p_eq using prepare_matched_fields[OF fc cr] by simp
  have out: "\<not> (p_p0 p \<le> i \<and> i < p_p1 p)"
    using recomputeRange_edge[OF rr[symmetric] assms(8)[folded n_def] assms(9,10)] .
  have cp: "p_min p ! i = min_c c ! nat (int i + oldX0) \<and>
         p_max p ! i = max_c c ! nat (int i + oldX0) \<and>
         p_rms p ! i = rms_c c ! nat (int i + oldX0)"
    unfolding p_eq using fc cr assms(9,10) by (rule prepare_copied)
  have "copyEnd \<le> n" using copyRange_bounds[OF cr] by simp
  then have i: "i < n" using assms(10) by simp
  have lens: "length (p_min p) = n" "length (p_max p) = n" "length (p_rms p) = n"
    unfolding p_eq using prepare_lengths by metis+
  have fr: "f_min f ! i = p_min p ! i \<and> f_max f ! i = p_max p ! i \<and> f_rms f ! i = p_rms p ! i"
    unfolding f_def using out i lens by (intro fillColumns_frame) simp_all
  have calls: "\<forall>(a, b) \<in> set (f_calls f). \<not> (a \<le> i \<and> i < b)"
  proof (clarify)
    fix a b assume "(a, b) \<in> set (f_calls f)" "a \<le> i" "i < b"
    with fillColumns_calls[of a b ext clip channel "p_min p" "p_max p" "p_rms p" "p_where p"
        "p_p0 p" "p_p1 p"] out
    show False unfolding f_def by simp
  qed
  note r = GetWaveDisplay_miss[OF assms(1,5), of ext, unfolded Let_def, folded p_def,
      folded f_def]
  have entry: "\<exists>e. mWaveCaches (cache (GetWaveDisplay ext clip this channel disp t0
                                     pixelsPerSecond)) ! channel = Some e \<and>
              min_c e ! i = min_c c ! nat (int i + oldX0) \<and>
              max_c e ! i = max_c c ! nat (int i + oldX0) \<and>
              rms_c e ! i = rms_c c ! nat (int i + oldX0)"
    unfolding r using assms(2) fr cp by simp
  have disp_ok: "min_d (display (GetWaveDisplay ext clip this channel disp t0 pixelsPerSecond)) ! i =
              min_c c ! nat (int i + oldX0) \<and>
            max_d (display (GetWaveDisplay ext clip this channel disp t0 pixelsPerSecond)) ! i =
              max_c c ! nat (int i + oldX0) \<and>
            rms_d (display (GetWaveDisplay ext clip this channel disp t0 pixelsPerSecond)) ! i =
              rms_c c ! nat (int i + oldX0)"
    if "ok (GetWaveDisplay ext clip this channel disp t0 pixelsPerSecond)"
    using that fr cp unfolding r by simp
  have sc: "seqCalls (GetWaveDisplay ext clip this channel disp t0 pixelsPerSecond) = f_calls f"
    unfolding r by simp
  have inst: "copyBegin = 0 \<and> copyEnd = n - nat oldX0 \<and>
            recomputeRange copyBegin copyEnd n = (n - nat oldX0, n)"
    if "len c = n" "0 < oldX0"
  proof -
    from cr that have cb: "copyBegin = 0" and ce: "copyEnd = n - nat oldX0"
      by (auto simp: copyRange_def)
    have "copyEnd < n" using ce cb that(2) assms(9,10) by linarith
    then show ?thesis using cb ce by (simp add: recomputeRange_def)
  qed
  show ?thesis
    using s rr out calls entry disp_ok inst unfolding sc p_def n_def by blast
qed

theorem reuse_copies_edge_overlap_witness:
  "where_d (exampleDisplay 2) = None \<and> 0 < length (mWaveCaches exampleCache) \<and>
   mWaveCaches exampleCache ! 0 = Some exampleEntry \<and>
   cacheMatch (Some exampleEntry) (ddiv (Fin 1) (Fin 1)) (width (exampleDisplay 2))
     (GetRate (exampleClip 100 [])) (mDirty exampleCache) \<and>
   \<not> requestHit (exampleClip 100 []) exampleCache 0 (exampleDisplay 2) (Fin 1) (Fin 1) \<and>
   findCorrection (exampleExt 1 [10, 20, 30] True 9) (where_c exampleEntry) (len exampleEntry)
       (width (exampleDisplay 2)) (dadd (Fin 1) (GetTrimLeft (exampleClip 100 [])))
       (GetRate (exampleClip 100 []))
       (dmul (GetRate (exampleClip 100 [])) (ddiv (Fin 1) (Fin 1))) = (1, Fin 0) \<and>
   copyRange 1 (len exampleEntry) (width (exampleDisplay 2)) = (0, 1) \<and>
   GetWaveDisplay (exampleExt 1 [10, 20, 30] True 9) (exampleClip 100 []) exampleCache
       0 (exampleDisplay 2) (Fin 1) (Fin 1) =
     \<lparr>ok = True,
      display = \<lparr>width = 2, where_d = Some [10, 20, 30], min_d = [7, 9], max_d = [7, 9],
                 rms_d = [7, 9], ownWhere = []\<rparr>,
      cache = \<lparr>mWaveCaches = [Some \<lparr>dirty = 0, len = 2, start = Fin 1, pps = Fin 1, rate = 10,
           where_c = [10, 20, 30], min_c = [7, 9], max_c = [7, 9], rms_c = [7, 9]\<rparr>],
                mDirty = 0\<rparr>,
      seqCalls = [(1, 2)]\<rparr>"
proof -
  have h1: "where_d (exampleDisplay 2) = None" by (simp add: exampleDisplay_def)
  have h2: "0 < length (mWaveCaches exampleCache)" by (simp add: exampleCache_eq)
  have h3: "mWaveCaches exampleCache ! 0 = Some exampleEntry" by (simp add: exampleCache_eq)
  have h4: "cacheMatch (Some exampleEntry) (ddiv (Fin 1) (Fin 1)) (width (exampleDisplay 2))
     (GetRate (exampleClip 100 [])) (mDirty exampleCache)"
    by (simp add: exampleCache_eq exampleEntry_def example_defs cacheMatch_def ppsMatch_def
          dsub_def)
  have h5: "\<not> requestHit (exampleClip 100 []) exampleCache 0 (exampleDisplay 2) (Fin 1) (Fin 1)"
    by (simp add: requestHit_def exampleCache_eq exampleEntry_def example_defs exactHit_def
          cacheMatch_def ppsMatch_def dsub_def deq_def)
  have h6: "findCorrection (exampleExt 1 [10, 20, 30] True 9) (where_c exampleEntry)
       (len exampleEntry) (width (exampleDisplay 2))
       (dadd (Fin 1) (GetTrimLeft (exampleClip 100 []))) (GetRate (exampleClip 100 []))
       (dmul (GetRate (exampleClip 100 [])) (ddiv (Fin 1) (Fin 1))) = (1, Fin 0)"
    by (simp add: exampleExt_def)
  have h7: "copyRange 1 (len exampleEntry) (width (exampleDisplay 2)) = (0, 1)"
    by (simp add: copyRange_def exampleEntry_def exampleDisplay_def)
  have h8: "(0::nat) = 0 \<or> (1::nat) = width (exampleDisplay 2)" by simp
  have ev: "GetWaveDisplay (exampleExt 1 [10, 20, 30] True 9) (exampleClip 100 []) exampleCache
       0 (exampleDisplay 2) (Fin 1) (Fin 1) =
     \<lparr>ok = True,
      display = \<lparr>width = 2, where_d = Some [10, 20, 30], min_d = [7, 9], max_d = [7, 9],
                 rms_d = [7, 9], ownWhere = []\<rparr>,
      cache = \<lparr>mWaveCaches = [Some \<lparr>dirty = 0, len = 2, start = Fin 1, pps = Fin 1, rate = 10,
           where_c = [10, 20, 30], min_c = [7, 9], max_c = [7, 9], rms_c = [7, 9]\<rparr>],
                mDirty = 0\<rparr>,
      seqCalls = [(1, 2)]\<rparr>"
    by (simp add: exampleCache_eq exampleEntry_def example_defs model_defs upt_rec)
  have h9: "(0::nat) \<le> 0" "(0::nat) < 1" by simp_all
  from reuse_copies_edge_overlap[OF h1 h2 h3 h4 h5 h6 h7 h8 h9]
  have "\<exists>e. mWaveCaches (cache (GetWaveDisplay (exampleExt 1 [10, 20, 30] True 9)
       (exampleClip 100 []) exampleCache 0 (exampleDisplay 2) (Fin 1) (Fin 1))) ! 0 = Some e \<and>
       min_c e ! 0 = min_c exampleEntry ! nat (int 0 + 1) \<and>
       max_c e ! 0 = max_c exampleEntry ! nat (int 0 + 1) \<and>
       rms_c e ! 0 = rms_c exampleEntry ! nat (int 0 + 1)"
    by blast
  with h1 h2 h3 h4 h5 h6 h7 ev show ?thesis by simp
qed

text \<open>
  C3 as stated fails when the overlap touches neither edge: a request of four pixels
  starting one pixel before a two-pixel entry has the copy range \<open>[1, 3)\<close>, the whole
  range \<open>[0, 4)\<close> is recomputed and the copied values (7) are overwritten by the
  summarizer's (9).
\<close>

theorem reuse_middle_overlap_counterexample:
  "mWaveCaches exampleCache ! 0 = Some exampleEntry \<and>
   cacheMatch (Some exampleEntry) (ddiv (Fin 1) (Fin 1)) (width (exampleDisplay 4))
     (GetRate (exampleClip 100 [])) (mDirty exampleCache) \<and>
   findCorrection (exampleExt (- 1) [- 10, 0, 10, 20, 30] True 9) (where_c exampleEntry)
       (len exampleEntry) (width (exampleDisplay 4))
       (dadd (Fin (- 1)) (GetTrimLeft (exampleClip 100 []))) (GetRate (exampleClip 100 []))
       (dmul (GetRate (exampleClip 100 [])) (ddiv (Fin 1) (Fin 1))) = (- 1, Fin 0) \<and>
   copyRange (- 1) (len exampleEntry) (width (exampleDisplay 4)) = (1, 3) \<and>
   min_c exampleEntry ! nat (int 1 + (- 1)) = 7 \<and>
   seqCalls (GetWaveDisplay (exampleExt (- 1) [- 10, 0, 10, 20, 30] True 9) (exampleClip 100 [])
       exampleCache 0 (exampleDisplay 4) (Fin (- 1)) (Fin 1)) = [(0, 4)] \<and>
   mWaveCaches (cache (GetWaveDisplay (exampleExt (- 1) [- 10, 0, 10, 20, 30] True 9)
       (exampleClip 100 []) exampleCache 0 (exampleDisplay 4) (Fin (- 1)) (Fin 1))) ! 0 =
     Some \<lparr>dirty = 0, len = 4, start = Fin (- 1), pps = Fin 1, rate = 10,
           where_c = [- 10, 0, 10, 20, 30], min_c = [9, 9, 9, 9], max_c = [9, 9, 9, 9],
           rms_c = [9, 9, 9, 9]\<rparr>"
  by (simp add: exampleCache_eq exampleEntry_def example_defs model_defs upt_rec)

lemma appendHit_beyond: "appendHit clip wh ns i \<Longrightarrow> ns < wh ! (i + 1)"
  by (simp add: appendHit_def clipLeft_def clipRight_def)

lemma appendStart_le:
  assumes "p0 \<le> i" "i < p1" "GetNumSamples clip ch < wh ! (i + 1)"
  shows "appendStart clip ch wh p0 p1 \<le> i"
proof (rule ccontr)
  assume "\<not> appendStart clip ch wh p0 p1 \<le> i"
  then have "i < firstAppendColumn wh (GetNumSamples clip ch) [p0..<p1] p1"
    by (simp add: appendStart_def)
  from firstAppendColumn_upt_before[OF assms(1) this assms(2)] assms(3)
  show False by simp
qed

lemma appendStart_stop:
  "p0 \<le> p1 \<Longrightarrow> appendStart clip ch wh p0 p1 < p1 \<Longrightarrow>
   GetNumSamples clip ch < wh ! (appendStart clip ch wh p0 p1 + 1)"
  unfolding appendStart_def by (rule firstAppendColumn_upt_stop)

lemma appendStart_before:
  "p0 \<le> j \<Longrightarrow> j < appendStart clip ch wh p0 p1 \<Longrightarrow> j < p1 \<Longrightarrow>
   wh ! (j + 1) \<le> GetNumSamples clip ch"
  unfolding appendStart_def by (rule firstAppendColumn_upt_before)

text \<open>
  What the columns hold after lines 170 to 258, for the columns from \<^verbatim>\<open>a\<close> on, and the
  calls of the summarizer.
\<close>

lemma fillColumns_from_append:
  assumes "p0 < p1"
      and "p1 \<le> length mn" "p1 \<le> length mx" "p1 \<le> length rm"
      and "GetAppendBufferLen clip \<le> length (GetAppendBuffer clip ch)"
  shows "f_calls (fillColumns ext clip ch mn mx rm wh p0 p1) =
           (if p0 < seqEnd clip ch wh p0 p1 then [(p0, seqEnd clip ch wh p0 p1)] else [])"
    and "seqEnd clip ch wh p0 p1 \<le> j \<Longrightarrow> j < p1 \<Longrightarrow>
         f_min (fillColumns ext clip ch mn mx rm wh p0 p1) ! j =
           (if appendStart clip ch wh p0 p1 \<le> j \<and> appendHit clip wh (GetNumSamples clip ch) j
            then colMin clip ch wh (GetNumSamples clip ch) j else mn ! j) \<and>
         f_max (fillColumns ext clip ch mn mx rm wh p0 p1) ! j =
           (if appendStart clip ch wh p0 p1 \<le> j \<and> appendHit clip wh (GetNumSamples clip ch) j
            then colMax clip ch wh (GetNumSamples clip ch) j else mx ! j) \<and>
         f_rms (fillColumns ext clip ch mn mx rm wh p0 p1) ! j =
           (if appendStart clip ch wh p0 p1 \<le> j \<and> appendHit clip wh (GetNumSamples clip ch) j
            then colRms clip ch wh (GetNumSamples clip ch) j else rm ! j)"
proof -
  define e where "e = seqEnd clip ch wh p0 p1"
  from fillColumns_unfold[OF assms, of wh ext] obtain mn1 mx1 rm1 where
    lens: "length mn1 = length mn" "length mx1 = length mx" "length rm1 = length rm"
    and v1: "\<And>j. mn1 ! j =
        (if appendStart clip ch wh p0 p1 \<le> j \<and> j < p1 \<and> appendHit clip wh (GetNumSamples clip ch) j
         then colMin clip ch wh (GetNumSamples clip ch) j else mn ! j)"
    and v2: "\<And>j. mx1 ! j =
        (if appendStart clip ch wh p0 p1 \<le> j \<and> j < p1 \<and> appendHit clip wh (GetNumSamples clip ch) j
         then colMax clip ch wh (GetNumSamples clip ch) j else mx ! j)"
    and v3: "\<And>j. rm1 ! j =
        (if appendStart clip ch wh p0 p1 \<le> j \<and> j < p1 \<and> appendHit clip wh (GetNumSamples clip ch) j
         then colRms clip ch wh (GetNumSamples clip ch) j else rm ! j)"
    and fc: "fillColumns ext clip ch mn mx rm wh p0 p1 =
       (if p0 < e
        then (case seqGetWaveDisplay ext ch (take (e - p0) (drop p0 mn1))
                     (take (e - p0) (drop p0 mx1)) (take (e - p0) (drop p0 rm1))
                     (e - p0) (drop p0 wh) of
                (success, smn, smx, srm) \<Rightarrow>
                  \<lparr>f_ok = success,
                   f_min = writeColumns mn1 p0 (e - p0) smn,
                   f_max = writeColumns mx1 p0 (e - p0) smx,
                   f_rms = writeColumns rm1 p0 (e - p0) srm,
                   f_calls = [(p0, e)]\<rparr>)
        else \<lparr>f_ok = True, f_min = mn1, f_max = mx1, f_rms = rm1, f_calls = []\<rparr>)"
    unfolding e_def by blast
  show "f_calls (fillColumns ext clip ch mn mx rm wh p0 p1) =
           (if p0 < seqEnd clip ch wh p0 p1 then [(p0, seqEnd clip ch wh p0 p1)] else [])"
    unfolding fc e_def[symmetric] by (simp split: prod.splits)
  assume j: "seqEnd clip ch wh p0 p1 \<le> j" "j < p1"
  then have ej: "e \<le> j" by (simp add: e_def)
  have inl: "j < length mn1" "j < length mx1" "j < length rm1"
    using j(2) assms(2,3,4) lens by simp_all
  have w: "writeColumns xs p0 (e - p0) ys ! j = xs ! j" if "j < length xs" for xs ys
    using that ej by (auto simp: nth_writeColumns)
  have "f_min (fillColumns ext clip ch mn mx rm wh p0 p1) ! j = mn1 ! j \<and>
        f_max (fillColumns ext clip ch mn mx rm wh p0 p1) ! j = mx1 ! j \<and>
        f_rms (fillColumns ext clip ch mn mx rm wh p0 p1) ! j = rm1 ! j"
    unfolding fc using inl w by (simp split: prod.splits)
  then show "f_min (fillColumns ext clip ch mn mx rm wh p0 p1) ! j =
           (if appendStart clip ch wh p0 p1 \<le> j \<and> appendHit clip wh (GetNumSamples clip ch) j
            then colMin clip ch wh (GetNumSamples clip ch) j else mn ! j) \<and>
         f_max (fillColumns ext clip ch mn mx rm wh p0 p1) ! j =
           (if appendStart clip ch wh p0 p1 \<le> j \<and> appendHit clip wh (GetNumSamples clip ch) j
            then colMax clip ch wh (GetNumSamples clip ch) j else mx ! j) \<and>
         f_rms (fillColumns ext clip ch mn mx rm wh p0 p1) ! j =
           (if appendStart clip ch wh p0 p1 \<le> j \<and> appendHit clip wh (GetNumSamples clip ch) j
            then colRms clip ch wh (GetNumSamples clip ch) j else rm ! j)"
    using v1[of j] v2[of j] v3[of j] j(2) by simp
qed

lemma seqEnd_hit:
  assumes "p0 \<le> i" "i < p1" "appendHit clip wh (GetNumSamples clip ch) i"
  shows "appendStart clip ch wh p0 p1 \<le> i \<and> seqEnd clip ch wh p0 p1 = appendStart clip ch wh p0 p1"
proof -
  have a: "appendStart clip ch wh p0 p1 \<le> i"
    using appendStart_le[OF assms(1,2) appendHit_beyond[OF assms(3)]] .
  then have "anyAppendHit clip ch wh p0 p1"
    unfolding anyAppendHit_def using assms(2,3) by auto
  with a show ?thesis by (simp add: seqEnd_def)
qed

text \<open>
  C4, as the code has it, for lines 170 to 258 on both paths. In the range \<open>[p0, p1)\<close>
  let \<open>a\<close> be the first column whose right boundary is beyond the \<open>ns\<close> samples of the
  sequence (\<open>p1\<close> if there is none). The columns before \<open>a\<close> end inside the sequence
  and are never summarized from the append buffer. Every column of \<open>[a, p1)\<close> whose
  range, clipped to the append buffer, is not empty is summarized from the append
  buffer, whatever happened to the columns before it; this includes a column that
  straddles the end of the sequence, of which only the samples in the append buffer
  count. If some column was so updated, the summarizer of the sequence is called for
  \<open>[p0, a)\<close> only (not at all if that is empty) and the columns of \<open>[a, p1)\<close> with an
  empty clipped range keep what they held; if none was, it is called for all of
  \<open>[p0, p1)\<close>.
\<close>

theorem append_buffer_partition:
  assumes "p0 < p1"
      and "p1 \<le> length mn" and "p1 \<le> length mx" and "p1 \<le> length rm"
      and "GetAppendBufferLen clip \<le> length (GetAppendBuffer clip ch)"
      and "ns = GetNumSamples clip ch"
      and "a = appendStart clip ch wh p0 p1"
      and "f = fillColumns ext clip ch mn mx rm wh p0 p1"
  shows "p0 \<le> a \<and> a \<le> p1 \<and>
         (a < p1 \<longrightarrow> ns < wh ! (a + 1)) \<and>
         (\<forall>j. p0 \<le> j \<and> j < a \<longrightarrow> wh ! (j + 1) \<le> ns \<and> \<not> appendHit clip wh ns j) \<and>
         (\<forall>j. a \<le> j \<and> j < p1 \<and> appendHit clip wh ns j \<longrightarrow>
              f_min f ! j = colMin clip ch wh ns j \<and>
              f_max f ! j = colMax clip ch wh ns j \<and>
              f_rms f ! j = colRms clip ch wh ns j) \<and>
         (\<forall>j. p0 \<le> j \<and> j < p1 \<and> wh ! j < ns \<and> ns < wh ! (j + 1) \<and>
              0 < GetAppendBufferLen clip \<longrightarrow>
              a \<le> j \<and> appendHit clip wh ns j \<and>
              clipped clip ch wh ns j =
                take (nat (min (int (GetAppendBufferLen clip)) (wh ! (j + 1) - ns)))
                  (GetAppendBuffer clip ch)) \<and>
         (if \<exists>j. a \<le> j \<and> j < p1 \<and> appendHit clip wh ns j
          then f_calls f = (if p0 < a then [(p0, a)] else []) \<and>
               (\<forall>j. a \<le> j \<and> j < p1 \<and> \<not> appendHit clip wh ns j \<longrightarrow>
                    f_min f ! j = mn ! j \<and> f_max f ! j = mx ! j \<and> f_rms f ! j = rm ! j)
          else f_calls f = [(p0, p1)])"
proof -
  have ab: "p0 \<le> a" "a \<le> p1"
    using appendStart_bounds[of p0 p1 clip ch wh] assms(1,7) by simp_all
  have stop: "ns < wh ! (a + 1)" if "a < p1"
    using appendStart_stop[of p0 p1 clip ch wh] that assms(1,6,7) by simp
  have before: "wh ! (j + 1) \<le> ns \<and> \<not> appendHit clip wh ns j" if "p0 \<le> j" "j < a" for j
  proof -
    have "j < p1" using that(2) ab(2) by simp
    from appendStart_before[OF that(1) that(2)[unfolded assms(7)] this]
    have le: "wh ! (j + 1) \<le> ns" by (simp add: assms(6))
    then show ?thesis using appendHit_beyond[of clip wh ns j] by auto
  qed
  have any: "anyAppendHit clip ch wh p0 p1 = (\<exists>j. a \<le> j \<and> j < p1 \<and> appendHit clip wh ns j)"
    by (auto simp: anyAppendHit_def assms(6,7))
  have se: "seqEnd clip ch wh p0 p1 =
      (if \<exists>j. a \<le> j \<and> j < p1 \<and> appendHit clip wh ns j then a else p1)"
  proof (cases "\<exists>j. a \<le> j \<and> j < p1 \<and> appendHit clip wh ns j")
    case True
    then have "anyAppendHit clip ch wh p0 p1" using any by blast
    then have "seqEnd clip ch wh p0 p1 = a" by (simp add: seqEnd_def assms(7))
    with True show ?thesis by (simp only: if_True)
  next
    case False
    then have "\<not> anyAppendHit clip ch wh p0 p1" using any by blast
    then have "seqEnd clip ch wh p0 p1 = p1" by (simp add: seqEnd_def)
    with False show ?thesis by (simp only: if_False)
  qed
  note fa = fillColumns_from_append[OF assms(1-5), where ext = ext and wh = wh,
      folded assms(8) assms(6) assms(7)]
  have hit: "f_min f ! j = colMin clip ch wh ns j \<and> f_max f ! j = colMax clip ch wh ns j \<and>
      f_rms f ! j = colRms clip ch wh ns j"
    if "a \<le> j" "j < p1" "appendHit clip wh ns j" for j
  proof -
    have "seqEnd clip ch wh p0 p1 \<le> j" using that se by auto
    from fa(2)[OF this that(2)] that show ?thesis by simp
  qed
  have straddle: "a \<le> j \<and> appendHit clip wh ns j \<and>
              clipped clip ch wh ns j =
                take (nat (min (int (GetAppendBufferLen clip)) (wh ! (j + 1) - ns)))
                  (GetAppendBuffer clip ch)"
    if "p0 \<le> j" "j < p1" "wh ! j < ns" "ns < wh ! (j + 1)" "0 < GetAppendBufferLen clip" for j
  proof -
    have "a \<le> j"
      using appendStart_le[OF that(1,2), of clip ch wh] that(4) by (simp add: assms(6,7))
    moreover have "clipLeft wh ns j = 0" using that(3) by (simp add: clipLeft_def)
    moreover have "0 < clipRight clip wh ns j" using that(4,5) by (simp add: clipRight_def)
    ultimately show ?thesis by (simp add: appendHit_def clipped_def clipRight_def)
  qed
  have calls_hit: "f_calls f = (if p0 < a then [(p0, a)] else [])"
    if "\<exists>j. a \<le> j \<and> j < p1 \<and> appendHit clip wh ns j"
    using fa(1) se that by simp
  have miss: "f_min f ! j = mn ! j \<and> f_max f ! j = mx ! j \<and> f_rms f ! j = rm ! j"
    if "\<exists>j. a \<le> j \<and> j < p1 \<and> appendHit clip wh ns j"
       "a \<le> j" "j < p1" "\<not> appendHit clip wh ns j" for j
  proof -
    have "seqEnd clip ch wh p0 p1 \<le> j" using that se by auto
    from fa(2)[OF this that(3)] that(4) show ?thesis by simp
  qed
  have calls_none: "f_calls f = [(p0, p1)]"
    if "\<not> (\<exists>j. a \<le> j \<and> j < p1 \<and> appendHit clip wh ns j)"
    using fa(1) se that assms(1) by simp
  show ?thesis
    using ab stop before hit straddle calls_hit miss calls_none by (simp only: if_split) blast
qed

theorem append_buffer_partition_witness:
  "(0::nat) < 4 \<and> 4 \<le> length [0, 0, 0, 0 :: real] \<and>
   GetAppendBufferLen (exampleClip 10 [1, 2, 3, 4]) \<le>
     length (GetAppendBuffer (exampleClip 10 [1, 2, 3, 4]) 0) \<and>
   GetNumSamples (exampleClip 10 [1, 2, 3, 4]) 0 = 10 \<and>
   appendStart (exampleClip 10 [1, 2, 3, 4]) 0 [0, 8, 12, 12, 30] 0 4 = 1 \<and>
   [0, 8, 12, 12, 30] ! 1 < (10::int) \<and> (10::int) < [0, 8, 12, 12, 30] ! (1 + 1) \<and>
   0 < GetAppendBufferLen (exampleClip 10 [1, 2, 3, 4]) \<and>
   appendHit (exampleClip 10 [1, 2, 3, 4]) [0, 8, 12, 12, 30] 10 1 \<and>
   clipped (exampleClip 10 [1, 2, 3, 4]) 0 [0, 8, 12, 12, 30] 10 1 = [1, 2] \<and>
   \<not> appendHit (exampleClip 10 [1, 2, 3, 4]) [0, 8, 12, 12, 30] 10 2 \<and>
   appendHit (exampleClip 10 [1, 2, 3, 4]) [0, 8, 12, 12, 30] 10 3 \<and>
   f_calls (fillColumns (exampleExt 0 [] True 9) (exampleClip 10 [1, 2, 3, 4]) 0
      [0, 0, 0, 0] [0, 0, 0, 0] [0, 0, 0, 0] [0, 8, 12, 12, 30] 0 4) = [(0, 1)] \<and>
   f_min (fillColumns (exampleExt 0 [] True 9) (exampleClip 10 [1, 2, 3, 4]) 0
      [0, 0, 0, 0] [0, 0, 0, 0] [0, 0, 0, 0] [0, 8, 12, 12, 30] 0 4) = [9, 1, 0, 3] \<and>
   f_max (fillColumns (exampleExt 0 [] True 9) (exampleClip 10 [1, 2, 3, 4]) 0
      [0, 0, 0, 0] [0, 0, 0, 0] [0, 0, 0, 0] [0, 8, 12, 12, 30] 0 4) = [9, 2, 0, 4]"
proof -
  let ?clip = "exampleClip 10 [1, 2, 3, 4]" and ?wh = "[0, 8, 12, 12, 30] :: int list"
  let ?f = "fillColumns (exampleExt 0 [] True 9) ?clip 0
      [0, 0, 0, 0] [0, 0, 0, 0] [0, 0, 0, 0] ?wh 0 4"
  have h: "(0::nat) < 4" "4 \<le> length [0, 0, 0, 0 :: real]"
    "GetAppendBufferLen ?clip \<le> length (GetAppendBuffer ?clip 0)"
    "(10::int) = GetNumSamples ?clip 0"
    by (simp_all add: exampleClip_def)
  have a: "1 = appendStart ?clip 0 ?wh 0 4"
    by (simp add: appendStart_def exampleClip_def upt_rec)
  have st: "?wh ! 1 < (10::int)" "(10::int) < ?wh ! (1 + 1)" "0 < GetAppendBufferLen ?clip"
    by (simp_all add: exampleClip_def)
  have hits: "\<not> appendHit ?clip ?wh 10 2" "appendHit ?clip ?wh 10 3"
    by (simp_all add: appendHit_def clipLeft_def clipRight_def exampleClip_def)
  have ev: "f_calls ?f = [(0, 1)]" "f_min ?f = [9, 1, 0, 3]" "f_max ?f = [9, 2, 0, 4]"
    by (simp_all add: example_defs model_defs upt_rec)
  note t = append_buffer_partition[OF h(1,2,2,2,3,4) a refl, of "exampleExt 0 [] True 9"]
  have "(1::nat) \<le> 1 \<and> appendHit ?clip ?wh 10 1 \<and>
      clipped ?clip 0 ?wh 10 1 =
        take (nat (min (int (GetAppendBufferLen ?clip)) (?wh ! (1 + 1) - 10)))
          (GetAppendBuffer ?clip 0)"
    using t[THEN conjunct2, THEN conjunct2, THEN conjunct2, THEN conjunct2, THEN conjunct2,
        THEN conjunct1, rule_format, of 1] st
    by simp
  then have s1: "appendHit ?clip ?wh 10 1" "clipped ?clip 0 ?wh 10 1 = [1, 2]"
    by (simp_all add: exampleClip_def)
  from h a[symmetric] st s1 hits ev show ?thesis by simp
qed

text \<open>
  C4 as stated fails: the only column of the request covers the samples \<open>[5, 15)\<close> and
  straddles the end of the sequence at 10, yet it is summarized from the five samples of
  the append buffer and the sequence's summarizer is never called.
\<close>

theorem append_straddling_counterexample:
  "p_where (requestPrepared (exampleExt 0 [5, 15] True 9) (exampleClip 10 [1, 2, 3, 4, 5])
      (WaveClipWaveformCache_new 1 0) 0 (exampleDisplay 1) (Fin 0) (Fin 1)) = [5, 15] \<and>
   GetNumSamples (exampleClip 10 [1, 2, 3, 4, 5]) 0 = 10 \<and>
   (5::int) < 10 \<and> (10::int) < 15 \<and>
   ok (GetWaveDisplay (exampleExt 0 [5, 15] True 9) (exampleClip 10 [1, 2, 3, 4, 5])
      (WaveClipWaveformCache_new 1 0) 0 (exampleDisplay 1) (Fin 0) (Fin 1)) \<and>
   seqCalls (GetWaveDisplay (exampleExt 0 [5, 15] True 9) (exampleClip 10 [1, 2, 3, 4, 5])
      (WaveClipWaveformCache_new 1 0) 0 (exampleDisplay 1) (Fin 0) (Fin 1)) = [] \<and>
   min_d (display (GetWaveDisplay (exampleExt 0 [5, 15] True 9)
      (exampleClip 10 [1, 2, 3, 4, 5]) (WaveClipWaveformCache_new 1 0) 0 (exampleDisplay 1)
      (Fin 0) (Fin 1))) = [1] \<and>
   max_d (display (GetWaveDisplay (exampleExt 0 [5, 15] True 9)
      (exampleClip 10 [1, 2, 3, 4, 5]) (WaveClipWaveformCache_new 1 0) 0 (exampleDisplay 1)
      (Fin 0) (Fin 1))) = [5]"
  by (simp add: requestPrepared_def example_defs model_defs upt_rec)

text \<open>
  C5, as the code has it. On the replacement branch, let column \<open>i\<close> of the recompute
  range start at or beyond the \<open>ns\<close> samples of the sequence, and let \<open>samples\<close>, the
  samples of the append buffer in the column's range, be not empty. Then the new entry
  (and the display, when the call returns true) holds for column \<open>i\<close> the least and the
  greatest of \<open>samples\<close> and the square root of the mean of their squares, and no call
  of the sequence's summarizer covers column \<open>i\<close>.
\<close>

theorem append_buffer_precedence:
  assumes "where_d disp = None"
      and "channel < length (mWaveCaches this)"
      and "\<not> requestHit clip this channel disp t0 pixelsPerSecond"
      and "GetAppendBufferLen clip \<le> length (GetAppendBuffer clip channel)"
      and "p = requestPrepared ext clip this channel disp t0 pixelsPerSecond"
      and "ns = GetNumSamples clip channel"
      and "p_p0 p \<le> i" and "i < p_p1 p"
      and "ns \<le> p_where p ! i"
      and "samples =
             take (nat (min (int (GetAppendBufferLen clip)) (p_where p ! (i + 1) - ns)
                        - (p_where p ! i - ns)))
               (drop (nat (p_where p ! i - ns)) (GetAppendBuffer clip channel))"
      and "samples \<noteq> []"
  shows "(\<exists>e. mWaveCaches (cache (GetWaveDisplay ext clip this channel disp t0 pixelsPerSecond))
                ! channel = Some e \<and>
              min_c e ! i = Min (set samples) \<and>
              max_c e ! i = Max (set samples) \<and>
              rms_c e ! i = sqrt (sum_list (map (\<lambda>v. v * v) samples) / real (length samples))) \<and>
         (ok (GetWaveDisplay ext clip this channel disp t0 pixelsPerSecond) \<longrightarrow>
            min_d (display (GetWaveDisplay ext clip this channel disp t0 pixelsPerSecond)) ! i =
              Min (set samples) \<and>
            max_d (display (GetWaveDisplay ext clip this channel disp t0 pixelsPerSecond)) ! i =
              Max (set samples) \<and>
            rms_d (display (GetWaveDisplay ext clip this channel disp t0 pixelsPerSecond)) ! i =
              sqrt (sum_list (map (\<lambda>v. v * v) samples) / real (length samples))) \<and>
         (\<forall>(a, b) \<in> set (seqCalls (GetWaveDisplay ext clip this channel disp t0
                                       pixelsPerSecond)).
            \<not> (a \<le> i \<and> i < b))"
proof -
  define f where "f = fillColumns ext clip channel (p_min p) (p_max p) (p_rms p) (p_where p)
                        (p_p0 p) (p_p1 p)"
  define wh where "wh = p_where p"
  have cl: "clipLeft wh ns i = wh ! i - ns"
    using assms(9) by (simp add: clipLeft_def wh_def)
  have sm: "samples = clipped clip channel wh ns i"
    using cl by (simp add: assms(10) clipped_def clipRight_def wh_def)
  have hit: "appendHit clip wh ns i"
  proof (rule ccontr)
    assume "\<not> appendHit clip wh ns i"
    then have "clipped clip channel wh ns i = []"
      by (simp add: appendHit_def clipped_def)
    with sm assms(11) show False by simp
  qed
  have lt: "p_p0 p < p_p1 p" using assms(7,8) by simp
  have n: "p_p1 p \<le> width disp"
    unfolding assms(5) requestPrepared_def by (rule prepare_p1_le)
  have lens: "length (p_min p) = width disp" "length (p_max p) = width disp"
      "length (p_rms p) = width disp"
    unfolding assms(5) requestPrepared_def using prepare_lengths by metis+
  have l: "p_p1 p \<le> length (p_min p)" "p_p1 p \<le> length (p_max p)" "p_p1 p \<le> length (p_rms p)"
    using n lens by simp_all
  have hit': "appendHit clip wh (GetNumSamples clip channel) i"
    using hit by (simp add: assms(6))
  note se = seqEnd_hit[OF assms(7,8) hit']
  note fa = fillColumns_from_append[OF lt l assms(4), where ext = ext and wh = wh,
      folded assms(6), folded wh_def, folded f_def]
  have e_le: "seqEnd clip channel wh (p_p0 p) (p_p1 p) \<le> i" using se by simp
  have vals: "f_min f ! i = colMin clip channel wh ns i \<and>
      f_max f ! i = colMax clip channel wh ns i \<and> f_rms f ! i = colRms clip channel wh ns i"
    using fa(2)[unfolded wh_def[symmetric], OF e_le assms(8)] se hit by (simp add: wh_def f_def assms(6))
  have vals': "f_min f ! i = Min (set samples) \<and> f_max f ! i = Max (set samples) \<and>
      f_rms f ! i = sqrt (sum_list (map (\<lambda>v. v * v) samples) / real (length samples))"
    using vals by (simp add: colMin_def colMax_def colRms_def sm)
  have calls: "\<forall>(a, b) \<in> set (f_calls f). \<not> (a \<le> i \<and> i < b)"
    using fa(1)[unfolded wh_def[symmetric]] e_le by (auto simp: wh_def f_def split: if_splits)
  note r = GetWaveDisplay_miss[OF assms(1,3), of ext, unfolded Let_def, folded assms(5),
      folded wh_def, folded f_def[unfolded wh_def[symmetric]]]
  have entry: "\<exists>e. mWaveCaches (cache (GetWaveDisplay ext clip this channel disp t0 pixelsPerSecond))
                ! channel = Some e \<and>
              min_c e ! i = Min (set samples) \<and>
              max_c e ! i = Max (set samples) \<and>
              rms_c e ! i = sqrt (sum_list (map (\<lambda>v. v * v) samples) / real (length samples))"
    unfolding r using assms(2) vals' by (simp add: f_def wh_def)
  have disp_ok: "min_d (display (GetWaveDisplay ext clip this channel disp t0 pixelsPerSecond)) ! i =
              Min (set samples) \<and>
            max_d (display (GetWaveDisplay ext clip this channel disp t0 pixelsPerSecond)) ! i =
              Max (set samples) \<and>
            rms_d (display (GetWaveDisplay ext clip this channel disp t0 pixelsPerSecond)) ! i =
              sqrt (sum_list (map (\<lambda>v. v * v) samples) / real (length samples))"
    if "ok (GetWaveDisplay ext clip this channel disp t0 pixelsPerSecond)"
    using that vals' unfolding r by (simp add: f_def wh_def)
  have sc: "seqCalls (GetWaveDisplay ext clip this channel disp t0 pixelsPerSecond) = f_calls f"
    unfolding r by (simp add: f_def wh_def)
  show ?thesis using entry disp_ok calls unfolding sc by blast
qed

theorem append_buffer_precedence_witness:
  "where_d (exampleDisplay 1) = None \<and>
   0 < length (mWaveCaches (WaveClipWaveformCache_new 1 0)) \<and>
   \<not> requestHit (exampleClip 10 [2, - 2]) (WaveClipWaveformCache_new 1 0) 0 (exampleDisplay 1)
       (Fin 1) (Fin 1) \<and>
   GetAppendBufferLen (exampleClip 10 [2, - 2]) \<le>
     length (GetAppendBuffer (exampleClip 10 [2, - 2]) 0) \<and>
   p_where (requestPrepared (exampleExt 0 [10, 20] True 9) (exampleClip 10 [2, - 2])
      (WaveClipWaveformCache_new 1 0) 0 (exampleDisplay 1) (Fin 1) (Fin 1)) = [10, 20] \<and>
   p_p0 (requestPrepared (exampleExt 0 [10, 20] True 9) (exampleClip 10 [2, - 2])
      (WaveClipWaveformCache_new 1 0) 0 (exampleDisplay 1) (Fin 1) (Fin 1)) = 0 \<and>
   p_p1 (requestPrepared (exampleExt 0 [10, 20] True 9) (exampleClip 10 [2, - 2])
      (WaveClipWaveformCache_new 1 0) 0 (exampleDisplay 1) (Fin 1) (Fin 1)) = 1 \<and>
   GetNumSamples (exampleClip 10 [2, - 2]) 0 = 10 \<and>
   GetWaveDisplay (exampleExt 0 [10, 20] True 9) (exampleClip 10 [2, - 2])
       (WaveClipWaveformCache_new 1 0) 0 (exampleDisplay 1) (Fin 1) (Fin 1) =
     \<lparr>ok = True,
      display = \<lparr>width = 1, where_d = Some [10, 20], min_d = [- 2], max_d = [2], rms_d = [2],
                 ownWhere = []\<rparr>,
      cache = \<lparr>mWaveCaches = [Some \<lparr>dirty = 0, len = 1, start = Fin 1, pps = Fin 1, rate = 10,
                   where_c = [10, 20], min_c = [- 2], max_c = [2], rms_c = [2]\<rparr>],
                mDirty = 0\<rparr>,
      seqCalls = []\<rparr>"
proof -
  let ?ext = "exampleExt 0 [10, 20] True 9" and ?clip = "exampleClip 10 [2, - 2]"
  let ?st = "WaveClipWaveformCache_new 1 0" and ?disp = "exampleDisplay 1"
  let ?p = "requestPrepared ?ext ?clip ?st 0 ?disp (Fin 1) (Fin 1)"
  have h1: "where_d ?disp = None" by (simp add: exampleDisplay_def)
  have h2: "0 < length (mWaveCaches ?st)" by (simp add: WaveClipWaveformCache_new_def)
  have h3: "\<not> requestHit ?clip ?st 0 ?disp (Fin 1) (Fin 1)"
    by (simp add: requestHit_def example_defs exactHit_def cacheMatch_def)
  have h4: "GetAppendBufferLen ?clip \<le> length (GetAppendBuffer ?clip 0)"
    by (simp add: exampleClip_def)
  have p: "p_where ?p = [10, 20]" "p_p0 ?p = 0" "p_p1 ?p = 1"
    by (simp_all add: requestPrepared_def example_defs cacheMatch_def prepare_def
          recomputeRange_def Let_def)
  have ns: "GetNumSamples ?clip 0 = 10" by (simp add: exampleClip_def)
  have h7: "p_p0 ?p \<le> 0" "0 < p_p1 ?p" "10 \<le> p_where ?p ! 0" using p by simp_all
  have sm: "[2, - 2 :: real] =
      take (nat (min (int (GetAppendBufferLen ?clip)) (p_where ?p ! (0 + 1) - 10)
                 - (p_where ?p ! 0 - 10)))
        (drop (nat (p_where ?p ! 0 - 10)) (GetAppendBuffer ?clip 0))"
    using p by (simp add: exampleClip_def)
  have ne: "[2, - 2 :: real] \<noteq> []" by simp
  note t = append_buffer_precedence[OF h1 h2 h3 h4 refl ns[symmetric] h7 sm ne]
  have rms: "sqrt (sum_list (map (\<lambda>v. v * v) [2, - 2 :: real]) / real (length [2, - 2 :: real])) = 2"
    by simp
  from t have "\<exists>e. mWaveCaches (cache (GetWaveDisplay ?ext ?clip ?st 0 ?disp (Fin 1) (Fin 1))) ! 0
      = Some e \<and> rms_c e ! 0 = 2"
    unfolding rms by blast
  moreover have "GetWaveDisplay ?ext ?clip ?st 0 ?disp (Fin 1) (Fin 1) =
     \<lparr>ok = True,
      display = \<lparr>width = 1, where_d = Some [10, 20], min_d = [- 2], max_d = [2], rms_d = [2],
                 ownWhere = []\<rparr>,
      cache = \<lparr>mWaveCaches = [Some \<lparr>dirty = 0, len = 1, start = Fin 1, pps = Fin 1, rate = 10,
                   where_c = [10, 20], min_c = [- 2], max_c = [2], rms_c = [2]\<rparr>],
                mDirty = 0\<rparr>,
      seqCalls = []\<rparr>"
    by (simp add: example_defs model_defs upt_rec)
  ultimately show ?thesis using h1 h2 h3 h4 p ns by simp
qed

text \<open>
  C5 as stated fails when the append buffer has no sample for the column: the only
  column covers the samples \<open>[20, 30)\<close>, beyond the 10 samples of the sequence, the
  append buffer is empty, and the column is handed to the sequence's summarizer and holds
  its answer (9).
\<close>

theorem append_buffer_empty_counterexample:
  "p_where (requestPrepared (exampleExt 0 [20, 30] True 9) (exampleClip 10 [])
      (WaveClipWaveformCache_new 1 0) 0 (exampleDisplay 1) (Fin 2) (Fin 1)) = [20, 30] \<and>
   p_p0 (requestPrepared (exampleExt 0 [20, 30] True 9) (exampleClip 10 [])
      (WaveClipWaveformCache_new 1 0) 0 (exampleDisplay 1) (Fin 2) (Fin 1)) = 0 \<and>
   p_p1 (requestPrepared (exampleExt 0 [20, 30] True 9) (exampleClip 10 [])
      (WaveClipWaveformCache_new 1 0) 0 (exampleDisplay 1) (Fin 2) (Fin 1)) = 1 \<and>
   GetNumSamples (exampleClip 10 []) 0 = 10 \<and> (10::int) \<le> 20 \<and>
   GetWaveDisplay (exampleExt 0 [20, 30] True 9) (exampleClip 10 [])
       (WaveClipWaveformCache_new 1 0) 0 (exampleDisplay 1) (Fin 2) (Fin 1) =
     \<lparr>ok = True,
      display = \<lparr>width = 1, where_d = Some [20, 30], min_d = [9], max_d = [9], rms_d = [9],
                 ownWhere = []\<rparr>,
      cache = \<lparr>mWaveCaches = [Some \<lparr>dirty = 0, len = 1, start = Fin 2, pps = Fin 1, rate = 10,
                   where_c = [20, 30], min_c = [9], max_c = [9], rms_c = [9]\<rparr>],
                mDirty = 0\<rparr>,
      seqCalls = [(0, 1)]\<rparr>"
  by (simp add: requestPrepared_def example_defs model_defs upt_rec)

text \<open>
  A request that replaced the entry is an exact hit when it is repeated: for a finite
  nonzero zoom, a finite positive rate, a positive width and a time that is a number, the
  entry the first call installs satisfies the repeated request, whether the first call
  returned true or false.
\<close>

lemma repeated_request_is_exact_hit:
  assumes "where_d disp = None"
      and "channel < length (mWaveCaches this)"
      and "\<not> requestHit clip this channel disp t0 (Fin z)"
      and "z \<noteq> 0" and "GetRate clip = Fin r" and "0 < r" and "0 < width disp"
      and "dadd t0 (GetTrimLeft clip) \<noteq> NaN"
  shows "requestHit clip (cache (GetWaveDisplay ext clip this channel disp t0 (Fin z))) channel
           disp t0 (Fin z)"
proof -
  define p where "p = requestPrepared ext clip this channel disp t0 (Fin z)"
  define f where "f = fillColumns ext clip channel (p_min p) (p_max p) (p_rms p) (p_where p)
                        (p_p0 p) (p_p1 p)"
  note r = GetWaveDisplay_miss[OF assms(1,3), of ext, unfolded Let_def, folded p_def,
      folded f_def]
  show ?thesis
    unfolding r requestHit_def using assms(2,4-8)
    by (simp add: exactHit_def cacheMatch_def ppsMatch_def WaveCache_new_def dsub_def deq_def)
qed

text \<open>
  With buffers of the caller, the function computes all the columns into them and leaves
  the cache object alone.
\<close>

lemma GetWaveDisplay_allocated:
  assumes "where_d disp \<noteq> None"
  shows "GetWaveDisplay ext clip this channel disp t0 z =
     (let f = fillColumns ext clip channel (min_d disp) (max_d disp) (rms_d disp)
                (ownWhere disp) 0 (width disp)
      in \<lparr>ok = f_ok f,
          display = disp\<lparr>min_d := f_min f, max_d := f_max f, rms_d := f_rms f\<rparr>,
          cache = this, seqCalls = f_calls f\<rparr>)"
  using assms by (simp add: GetWaveDisplay_def Let_def)

end
